theory Spec2Isabelle
  imports Main "HOL-Library.FSet" "HOL-Library.AList"
begin

section \<open>Values, callables and errors\<close>

text \<open>
  The service module of dbus-next (\<^verbatim>\<open>dbus_next/service.py\<close>) turns decorated class
  members into method, signal and property descriptors, collects them when a
  \<^verbatim>\<open>ServiceInterface\<close> is constructed, and forwards signals to every attached bus.

  What a call does is modelled by its result (a value or a raised exception) and by a
  trace of the function calls and bus notifications it made.
\<close>

text \<open>
  Modelled from the spec: the constructor \<open>PVariant\<close> stands for the class \<^verbatim>\<open>Variant\<close> of
  \<^verbatim>\<open>dbus_next/signature.py\<close>, a file that is not among the sources; the spec describes it
  as the tagged-value wrapper \<^verbatim>\<open>wrap(type, value) -> tagged value\<close> that pairs a type with a
  value. The other constructors are Python's own values. The module only asks whether a
  value is \<^verbatim>\<open>None\<close> and whether its type is exactly \<^verbatim>\<open>list\<close>, so tuples are kept apart
  from lists.
\<close>

datatype pyval =
    PNone
  | PBool bool
  | PInt int
  | PStr string
  | PList "pyval list"
  | PTuple "pyval list"
  | PDict "(pyval \<times> pyval) list"
  | PVariant string pyval

text \<open>The exceptions the module raises; \<open>Raised\<close> is any exception of user code.\<close>

datatype error =
    ValueError string
  | AttributeError string
  | SignalDisabledError string
  | SignatureBodyMismatchError string
  | InvalidSignatureError string
  | Raised string

text \<open>
  A Python function object. \<open>fn_id\<close> is its identity (what \<^verbatim>\<open>is\<close> compares),
  \<open>fn_name\<close> its \<^verbatim>\<open>__name__\<close>, \<open>parameters\<close> and \<open>return_annotation\<close> what
  \<^verbatim>\<open>inspect.signature\<close> reports (\<open>None\<close> stands for \<^verbatim>\<open>inspect.Signature.empty\<close>; an
  annotation, when present, is a signature string), and \<open>call\<close> what running it on the
  arguments after \<^verbatim>\<open>self\<close> gives: a returned value or a raised exception. User code is
  taken not to touch the interface or its buses.
\<close>

record pyfn =
  fn_id :: nat
  fn_name :: string
  parameters :: "(string \<times> string option) list"
  return_annotation :: "string option"
  call :: "pyval list \<Rightarrow> error + pyval"

text \<open>
  Modelled from the spec: the class \<^verbatim>\<open>SignatureTree\<close> of \<^verbatim>\<open>dbus_next/signature.py\<close>, a file
  that is not among the sources. The spec gives its contract as
  \<^verbatim>\<open>parse(signature: string) -> ordered list of complete-type tokens\<close>, failing when the
  string is not well formed. A tree keeps the string and its complete types; the parser
  itself is a parameter \<open>parse\<close> of every function that builds a tree.
\<close>

record SignatureTree =
  tree_signature :: string
  types :: "string list"

type_synonym parser = "string \<Rightarrow> error + SignatureTree"

text \<open>
  Modelled from the spec: the enumeration \<^verbatim>\<open>PropertyAccess\<close> and its method \<^verbatim>\<open>writable\<close>
  of \<^verbatim>\<open>dbus_next/constants.py\<close>, a file that is not among the sources. The spec lists the
  modes READ, WRITE and READWRITE and says that an access mode permits writing when it is
  WRITE or READWRITE.
\<close>

datatype PropertyAccess = READ | WRITE | READWRITE

fun writable :: "PropertyAccess \<Rightarrow> bool" where
  "writable READ = False"
| "writable WRITE = True"
| "writable READWRITE = True"

text \<open>
  Modelled from the spec: the classes \<^verbatim>\<open>ArgDirection\<close>, \<^verbatim>\<open>Arg\<close>, \<^verbatim>\<open>Method\<close>, \<^verbatim>\<open>Signal\<close>,
  \<^verbatim>\<open>Property\<close> and \<^verbatim>\<open>Interface\<close> of \<^verbatim>\<open>dbus_next/introspection.py\<close>, a file that is not
  among the sources. They are plain data with the fields the spec lists: an argument has
  a type, a direction and an optional name; an interface description has a name and the
  descriptions of its methods, signals and properties.
\<close>

datatype ArgDirection = IN | OUT

datatype intr_Arg = Arg string ArgDirection "string option"

datatype intr_Method = IMethod string "intr_Arg list" "intr_Arg list"

datatype intr_Signal = ISignal string "intr_Arg list"

datatype intr_Property = IProperty string string PropertyAccess

record intr_Interface =
  intr_name :: string
  intr_methods :: "intr_Method list"
  intr_signals :: "intr_Signal list"
  intr_properties :: "intr_Property list"

section \<open>Method and signal descriptors\<close>

text \<open>The class \<^verbatim>\<open>_Method\<close>.\<close>

record Method_obj =
  m_name :: string
  m_fn :: pyfn
  m_disabled :: bool
  m_introspection :: intr_Method
  in_signature :: string
  out_signature :: string
  in_signature_tree :: SignatureTree
  out_signature_tree :: SignatureTree

text \<open>
  The loop of \<^verbatim>\<open>_Method.__init__\<close> over the parameters after the first (\<^verbatim>\<open>self\<close>):
  it collects the IN arguments and concatenates the annotations.
\<close>

fun method_params ::
  "(string \<times> string option) list \<Rightarrow> intr_Arg list \<Rightarrow> string \<Rightarrow> error + (intr_Arg list \<times> string)"
where
  "method_params [] in_args in_sig = Inr (in_args, in_sig)"
| "method_params ((pname, None) # ps) in_args in_sig =
     Inl (ValueError ''method parameters must specify the dbus type string as an annotation'')"
| "method_params ((pname, Some ann) # ps) in_args in_sig =
     method_params ps (in_args @ [Arg ann IN (Some pname)]) (in_sig @ ann)"

definition Method_init :: "parser \<Rightarrow> pyfn \<Rightarrow> string \<Rightarrow> bool \<Rightarrow> error + Method_obj" where
  "Method_init parse fn name disabled =
     (case method_params (drop 1 (parameters fn)) [] [] of
        Inl e \<Rightarrow> Inl e
      | Inr (in_args, in_sig) \<Rightarrow>
          (case (case return_annotation fn of
                   None \<Rightarrow> Inr ([], [])
                 | Some ann \<Rightarrow>
                     (case parse ann of
                        Inl e \<Rightarrow> Inl e
                      | Inr t \<Rightarrow> Inr (ann, map (\<lambda>ty. Arg ty OUT None) (types t)))) of
             Inl e \<Rightarrow> Inl e
           | Inr (out_sig, out_args) \<Rightarrow>
               (case parse in_sig of
                  Inl e \<Rightarrow> Inl e
                | Inr in_tree \<Rightarrow>
                    (case parse out_sig of
                       Inl e \<Rightarrow> Inl e
                     | Inr out_tree \<Rightarrow>
                         Inr \<lparr> m_name = name, m_fn = fn, m_disabled = disabled,
                               m_introspection = IMethod name in_args out_args,
                               in_signature = in_sig, out_signature = out_sig,
                               in_signature_tree = in_tree,
                               out_signature_tree = out_tree \<rparr>))))"

text \<open>The class \<^verbatim>\<open>_Signal\<close>.\<close>

record Signal_obj =
  s_signature :: string
  s_signature_tree :: SignatureTree
  s_name :: string
  s_disabled :: bool
  s_introspection :: intr_Signal

definition Signal_init :: "parser \<Rightarrow> pyfn \<Rightarrow> string \<Rightarrow> bool \<Rightarrow> error + Signal_obj" where
  "Signal_init parse fn name disabled =
     (case return_annotation fn of
        Some ann \<Rightarrow>
          (case parse ann of
             Inl e \<Rightarrow> Inl e
           | Inr t \<Rightarrow>
               Inr \<lparr> s_signature = ann, s_signature_tree = t, s_name = name,
                     s_disabled = disabled,
                     s_introspection = ISignal name (map (\<lambda>ty. Arg ty OUT None) (types t)) \<rparr>)
      | None \<Rightarrow>
          (case parse [] of
             Inl e \<Rightarrow> Inl e
           | Inr t \<Rightarrow>
               Inr \<lparr> s_signature = [], s_signature_tree = t, s_name = name,
                     s_disabled = disabled, s_introspection = ISignal name [] \<rparr>))"

text \<open>
  Both decorators choose the member name with \<^verbatim>\<open>name if name else fn.__name__\<close>:
  \<^verbatim>\<open>None\<close> and the empty string both fall back to the function's own name.
\<close>

definition member_name :: "string option \<Rightarrow> pyfn \<Rightarrow> string" where
  "member_name name fn =
     (case name of None \<Rightarrow> fn_name fn | Some n \<Rightarrow> if n = [] then fn_name fn else n)"

section \<open>Interfaces, buses and the trace of effects\<close>

text \<open>
  What a call does besides returning is recorded as a trace: \<open>Call i args\<close> when the
  function object with identity \<open>i\<close> is run on \<open>args\<close>, and \<open>Notify bus iface member sg body\<close>
  when \<^verbatim>\<open>bus._interface_signal_notify(interface, iface, member, sg, body)\<close> is called. The
  bus belongs to the transport layer; its notify operation is taken to return normally.
\<close>

datatype 'b event =
    Call nat "pyval list"
  | Notify 'b string string string "pyval list"

text \<open>
  The class \<^verbatim>\<open>ServiceInterface\<close>. Property objects are shared with the class and are
  mutated when an interface is constructed, so the interface holds their addresses in a
  store. \<^verbatim>\<open>self.__buses\<close> is a Python \<^verbatim>\<open>set\<close>.
\<close>

record 'b ServiceInterface =
  i_name :: string
  i_methods :: "Method_obj list"
  i_properties :: "nat list"
  i_signals :: "Signal_obj list"
  i_buses :: "'b fset"

text \<open>
  Python does not fix the order in which a \<^verbatim>\<open>set\<close> is iterated: it follows the hash table,
  not the order of insertion. Every loop over \<^verbatim>\<open>self.__buses\<close> therefore takes the
  iteration order as a parameter \<open>ord\<close>, of which only \<open>enumerates ord\<close> is known: each
  member of the set is visited once.
\<close>

type_synonym 'b set_order = "'b fset \<Rightarrow> 'b list"

definition enumerates :: "'b set_order \<Rightarrow> bool" where
  "enumerates ord \<longleftrightarrow> (\<forall>S. fset_of_list (ord S) = S \<and> distinct (ord S))"

definition add_bus :: "'b ServiceInterface \<Rightarrow> 'b \<Rightarrow> 'b ServiceInterface" where
  "add_bus interface bus = interface\<lparr> i_buses := finsert bus (i_buses interface) \<rparr>"

definition get_buses :: "'b ServiceInterface \<Rightarrow> 'b fset" where
  "get_buses interface = i_buses interface"

section \<open>The dispatch engine\<close>

text \<open>\<^verbatim>\<open>ServiceInterface._fn_result_to_body\<close>, branch by branch.\<close>

definition fn_result_to_body :: "pyval \<Rightarrow> SignatureTree \<Rightarrow> error + pyval list" where
  "fn_result_to_body result signature_tree =
     (let out_len = length (types signature_tree) in
      if result = PNone then Inr []
      else if out_len = 0 then
        Inl (SignatureBodyMismatchError ''Function was not expected to return an argument'')
      else if out_len = 1 then Inr [result]
      else (case result of
              PList xs \<Rightarrow> Inr xs
            | _ \<Rightarrow> Inl (SignatureBodyMismatchError
                          ''Expected function to return a list of arguments'')))"

text \<open>
  \<^verbatim>\<open>ServiceInterface._handle_signal\<close>: the body is computed first, so a mismatch is raised
  before any bus is notified.
\<close>

definition handle_signal ::
  "'b set_order \<Rightarrow> 'b ServiceInterface \<Rightarrow> Signal_obj \<Rightarrow> pyval \<Rightarrow> error + 'b event list"
where
  "handle_signal ord interface signal result =
     (case fn_result_to_body result (s_signature_tree signal) of
        Inl e \<Rightarrow> Inl e
      | Inr body \<Rightarrow>
          Inr (map (\<lambda>bus. Notify bus (i_name interface) (s_name signal) (s_signature signal) body)
                   (ord (get_buses interface))))"

text \<open>
  The function \<^verbatim>\<open>wrapped\<close> that the \<^verbatim>\<open>signal\<close> decorator returns, for the decorated function
  \<open>fn\<close> and its descriptor \<open>signal\<close>. The result pairs what the call returns or raises with
  the trace of what happened.
\<close>

definition signal_wrapped ::
  "'b set_order \<Rightarrow> pyfn \<Rightarrow> Signal_obj \<Rightarrow> 'b ServiceInterface \<Rightarrow> pyval list
     \<Rightarrow> (error + pyval) \<times> 'b event list"
where
  "signal_wrapped ord fn signal self args =
     (if s_disabled signal then
        (Inl (SignalDisabledError ''Tried to call a disabled signal''), [])
      else (case call fn args of
              Inl e \<Rightarrow> (Inl e, [Call (fn_id fn) args])
            | Inr result \<Rightarrow>
                (case handle_signal ord self signal result of
                   Inl e \<Rightarrow> (Inl e, [Call (fn_id fn) args])
                 | Inr evs \<Rightarrow> (Inr result, Call (fn_id fn) args # evs))))"

text \<open>
  The \<^verbatim>\<open>signal\<close> decorator builds the descriptor once, when the function is decorated;
  \<^verbatim>\<open>wrapped\<close> closes over it and carries it in \<^verbatim>\<open>wrapped.__dict__\<close>.
\<close>

definition signal ::
  "parser \<Rightarrow> string option \<Rightarrow> bool \<Rightarrow> pyfn \<Rightarrow> error + Signal_obj"
where
  "signal parse name disabled fn = Signal_init parse fn (member_name name fn) disabled"

text \<open>
  The function \<^verbatim>\<open>wrapped\<close> that the \<^verbatim>\<open>method\<close> decorator returns: it runs \<open>fn\<close> and has no
  \<^verbatim>\<open>return\<close> statement.
\<close>

definition method_wrapped :: "pyfn \<Rightarrow> pyval list \<Rightarrow> (error + pyval) \<times> 'b event list" where
  "method_wrapped fn args =
     (case call fn args of
        Inl e \<Rightarrow> (Inl e, [Call (fn_id fn) args])
      | Inr result \<Rightarrow> (Inr PNone, [Call (fn_id fn) args]))"

text \<open>The \<^verbatim>\<open>method\<close> decorator stores the descriptor it builds in \<^verbatim>\<open>wrapped.__dict__\<close>.\<close>

definition method_decorator ::
  "parser \<Rightarrow> string option \<Rightarrow> bool \<Rightarrow> pyfn \<Rightarrow> error + Method_obj"
where
  "method_decorator parse name disabled fn =
     Method_init parse fn (member_name name fn) disabled"

section \<open>Property descriptors\<close>

text \<open>
  The options dictionary handed to \<^verbatim>\<open>set_options\<close>, with the three keys the module reads.
  A key may be missing (outer \<open>None\<close>); the value of \<^verbatim>\<open>'name'\<close> may itself be \<^verbatim>\<open>None\<close>.
\<close>

record dbus_options =
  o_name :: "string option option"
  o_access :: "PropertyAccess option"
  o_disabled :: "bool option"

definition no_options :: dbus_options where
  "no_options = \<lparr> o_name = None, o_access = None, o_disabled = None \<rparr>"

text \<open>\<^verbatim>\<open>for k, v in options.items(): self.options[k] = v\<close>\<close>

definition options_update :: "dbus_options \<Rightarrow> dbus_options \<Rightarrow> dbus_options" where
  "options_update old new =
     \<lparr> o_name = (case o_name new of None \<Rightarrow> o_name old | Some v \<Rightarrow> Some v),
       o_access = (case o_access new of None \<Rightarrow> o_access old | Some v \<Rightarrow> Some v),
       o_disabled = (case o_disabled new of None \<Rightarrow> o_disabled old | Some v \<Rightarrow> Some v) \<rparr>"

text \<open>
  The class \<^verbatim>\<open>_Property\<close>. The attributes that only \<^verbatim>\<open>set_options\<close> assigns are optional:
  \<open>None\<close> means the attribute does not exist yet, and reading it raises
  \<^verbatim>\<open>AttributeError\<close>.
\<close>

record Property_obj =
  prop_getter :: pyfn
  prop_setter :: "pyfn option"
  p_signature :: string
  p_type :: string
  p_options :: "dbus_options option"
  p_name :: "string option"
  p_access :: "PropertyAccess option"
  p_disabled :: "bool option"
  p_introspection :: "intr_Property option"

definition set_options :: "Property_obj \<Rightarrow> dbus_options \<Rightarrow> Property_obj" where
  "set_options self options =
     (let opts = options_update (case p_options self of None \<Rightarrow> no_options | Some d \<Rightarrow> d) options;
          name = (case o_name options of
                    Some (Some n) \<Rightarrow> n
                  | _ \<Rightarrow> fn_name (prop_getter self));
          access = (case o_access options of Some a \<Rightarrow> a | None \<Rightarrow> READWRITE);
          disabled = (case o_disabled options of Some d \<Rightarrow> d | None \<Rightarrow> False)
      in self\<lparr> p_options := Some opts,
               p_name := Some name,
               p_access := Some access,
               p_disabled := Some disabled,
               p_introspection := Some (IProperty name (p_signature self) access) \<rparr>)"

text \<open>
  \<^verbatim>\<open>_Property.__init__(fn, *args, options=...)\<close>. The remaining positional arguments go to
  \<^verbatim>\<open>property.__init__\<close> and are not read by the module.
\<close>

definition Property_init ::
  "parser \<Rightarrow> pyfn \<Rightarrow> dbus_options option \<Rightarrow> error + Property_obj"
where
  "Property_init parse fn options =
     (if length (parameters fn) \<noteq> 1 then
        Inl (ValueError ''the property must only have the \"self\" input parameter'')
      else (case return_annotation fn of
              None \<Rightarrow>
                Inl (ValueError
                  ''the property must specify the dbus type string as a return annotation string'')
            | Some ann \<Rightarrow>
                (case parse ann of
                   Inl e \<Rightarrow> Inl e
                 | Inr tree \<Rightarrow>
                     (case types tree of
                        [ty] \<Rightarrow>
                          (let self = \<lparr> prop_getter = fn, prop_setter = None,
                                        p_signature = ann, p_type = ty,
                                        p_options = None, p_name = None, p_access = None,
                                        p_disabled = None, p_introspection = None \<rparr>
                           in Inr (case options of
                                     None \<Rightarrow> self
                                   | Some opts \<Rightarrow> set_options self opts))
                      | _ \<Rightarrow>
                          Inl (ValueError
                            ''the property signature must be a single complete type'')))))"

text \<open>
  \<^verbatim>\<open>_Property.setter\<close>: \<^verbatim>\<open>property.setter\<close> builds a new \<^verbatim>\<open>_Property\<close> from the getter
  (without options), then the setter is stored and the options of \<open>self\<close> are applied
  again.
\<close>

definition setter :: "parser \<Rightarrow> Property_obj \<Rightarrow> pyfn \<Rightarrow> error + Property_obj" where
  "setter parse self fn =
     (case Property_init parse (prop_getter self) None of
        Inl e \<Rightarrow> Inl e
      | Inr result \<Rightarrow>
          (case p_options self of
             None \<Rightarrow> Inl (AttributeError ''options'')
           | Some opts \<Rightarrow> Inr (set_options (result\<lparr> prop_setter := Some fn \<rparr>) opts)))"

text \<open>The decorator \<^verbatim>\<open>dbus_property(access, name, disabled)\<close> applied to \<open>fn\<close>.\<close>

definition dbus_property ::
  "parser \<Rightarrow> PropertyAccess \<Rightarrow> string option \<Rightarrow> bool \<Rightarrow> pyfn \<Rightarrow> error + Property_obj"
where
  "dbus_property parse access name disabled fn =
     Property_init parse fn
       (Some \<lparr> o_name = Some name, o_access = Some access, o_disabled = Some disabled \<rparr>)"

section \<open>Registering an interface\<close>

text \<open>
  A member of the class as \<^verbatim>\<open>inspect.getmembers\<close> lists it: a \<^verbatim>\<open>_Property\<close> object, given
  by its address, or any other object, of which the module reads the two markers in its
  \<^verbatim>\<open>__dict__\<close> and, for the message of the final check, the attribute \<^verbatim>\<open>name\<close>.
\<close>

datatype member =
    PropertyObj nat
  | OtherObj "Method_obj option" "Signal_obj option" "string option"

type_synonym store = "nat \<Rightarrow> Property_obj"

text \<open>
  The inner loop \<^verbatim>\<open>for prop in self.__properties\<close> of \<^verbatim>\<open>__init__\<close>: every collected
  property with the member's getter takes over the member's setter when that is not
  \<^verbatim>\<open>None\<close>.
\<close>

fun merge_property :: "store \<Rightarrow> nat list \<Rightarrow> nat \<Rightarrow> bool \<Rightarrow> store \<times> bool" where
  "merge_property h [] m found = (h, found)"
| "merge_property h (prop # props) m found =
     (if fn_id (prop_getter (h prop)) = fn_id (prop_getter (h m)) then
        merge_property
          (if prop_setter (h m) \<noteq> None
           then h(prop := (h prop)\<lparr> prop_setter := prop_setter (h m) \<rparr>)
           else h)
          props m True
      else merge_property h props m found)"

fun collect_members ::
  "store \<Rightarrow> (string \<times> member) list \<Rightarrow> 'b ServiceInterface \<Rightarrow> store \<times> 'b ServiceInterface"
where
  "collect_members h [] self = (h, self)"
| "collect_members h ((name, PropertyObj m) # ms) self =
     (case merge_property h (i_properties self) m False of
        (h', found) \<Rightarrow>
          collect_members h' ms
            (if found then self else self\<lparr> i_properties := i_properties self @ [m] \<rparr>))"
| "collect_members h ((name, OtherObj (Some meth) sg nm) # ms) self =
     collect_members h ms (self\<lparr> i_methods := i_methods self @ [meth] \<rparr>)"
| "collect_members h ((name, OtherObj None (Some sg) nm) # ms) self =
     collect_members h ms (self\<lparr> i_signals := i_signals self @ [sg] \<rparr>)"
| "collect_members h ((name, OtherObj None None nm) # ms) self =
     collect_members h ms self"

text \<open>
  The message of the final check reads \<^verbatim>\<open>member.name\<close>, where \<^verbatim>\<open>member\<close> is what the
  first loop left behind: the last member of the class, not the offending property. When
  that object has no attribute \<^verbatim>\<open>name\<close> the exception is an \<^verbatim>\<open>AttributeError\<close>. (A class
  always has members; with none, the variable would be unbound.)
\<close>

definition writable_error :: "store \<Rightarrow> (string \<times> member) list \<Rightarrow> error" where
  "writable_error h members =
     (if members = [] then Raised ''UnboundLocalError''
      else (case (case snd (last members) of
                    PropertyObj m \<Rightarrow> p_name (h m)
                  | OtherObj md sg nm \<Rightarrow> nm) of
              None \<Rightarrow> AttributeError ''name''
            | Some n \<Rightarrow>
                ValueError
                  (''property \"'' @ n @ ''\" is writable but does not have a setter'')))"

fun validate_properties :: "store \<Rightarrow> (string \<times> member) list \<Rightarrow> nat list \<Rightarrow> error option" where
  "validate_properties h members [] = None"
| "validate_properties h members (prop # props) =
     (case p_access (h prop) of
        None \<Rightarrow> Some (AttributeError ''access'')
      | Some a \<Rightarrow>
          if writable a \<and> prop_setter (h prop) = None
          then Some (writable_error h members)
          else validate_properties h members props)"

text \<open>
  \<^verbatim>\<open>ServiceInterface.__init__\<close>, given the store of property objects and the members of the
  class; \<open>fresh_interface\<close> is the object after the five assignments that open it. The
  result is the store as the merge left it together with the new interface, or the
  exception that ended the construction.
\<close>

definition fresh_interface :: "string \<Rightarrow> 'b ServiceInterface" where
  "fresh_interface name =
     \<lparr> i_name = name, i_methods = [], i_properties = [], i_signals = [], i_buses = {||} \<rparr>"

definition ServiceInterface_init ::
  "store \<Rightarrow> string \<Rightarrow> (string \<times> member) list \<Rightarrow> error + (store \<times> 'b ServiceInterface)"
where
  "ServiceInterface_init h name members =
     (case collect_members h members (fresh_interface name) of
        (h', self) \<Rightarrow>
          (case validate_properties h' members (i_properties self) of
             Some e \<Rightarrow> Inl e
           | None \<Rightarrow> Inr (h', self)))"

section \<open>Property-change notification and introspection\<close>

text \<open>
  The loop of \<^verbatim>\<open>emit_properties_changed\<close> that fills \<^verbatim>\<open>variant_dict\<close>. A Python \<^verbatim>\<open>dict\<close> keeps
  insertion order and an assignment to an existing key keeps the key's place, which is
  what \<open>AList.update\<close> does.
\<close>

fun changed_variants ::
  "store \<Rightarrow> nat list \<Rightarrow> (string \<rightharpoonup> pyval) \<Rightarrow> (string \<times> pyval) list
     \<Rightarrow> error + (string \<times> pyval) list"
where
  "changed_variants h [] changed variant_dict = Inr variant_dict"
| "changed_variants h (prop # props) changed variant_dict =
     (case p_name (h prop) of
        None \<Rightarrow> Inl (AttributeError ''name'')
      | Some n \<Rightarrow>
          (case changed n of
             None \<Rightarrow> changed_variants h props changed variant_dict
           | Some v \<Rightarrow>
               changed_variants h props changed
                 (AList.update n (PVariant (p_signature (h prop)) v) variant_dict)))"

definition dict_value :: "(string \<times> pyval) list \<Rightarrow> pyval" where
  "dict_value d = PDict (map (\<lambda>(k, v). (PStr k, v)) d)"

definition emit_properties_changed ::
  "'b set_order \<Rightarrow> store \<Rightarrow> 'b ServiceInterface \<Rightarrow> (string \<rightharpoonup> pyval) \<Rightarrow> pyval
     \<Rightarrow> error + 'b event list"
where
  "emit_properties_changed ord h self changed_properties invalidated_properties =
     (case changed_variants h (i_properties self) changed_properties [] of
        Inl e \<Rightarrow> Inl e
      | Inr variant_dict \<Rightarrow>
          Inr (map (\<lambda>bus. Notify bus ''org.freedesktop.DBus.Properties'' ''PropertiesChanged''
                              ''sa{sv}as''
                              [PStr (i_name self), dict_value variant_dict,
                               invalidated_properties])
                   (ord (get_buses self))))"

text \<open>The list comprehension over the properties in \<^verbatim>\<open>introspect\<close>.\<close>

fun visible_properties :: "store \<Rightarrow> nat list \<Rightarrow> error + intr_Property list" where
  "visible_properties h [] = Inr []"
| "visible_properties h (prop # props) =
     (case p_disabled (h prop) of
        None \<Rightarrow> Inl (AttributeError ''disabled'')
      | Some d \<Rightarrow>
          if d then visible_properties h props
          else (case p_introspection (h prop) of
                  None \<Rightarrow> Inl (AttributeError ''introspection'')
                | Some i \<Rightarrow>
                    (case visible_properties h props of
                       Inl e \<Rightarrow> Inl e
                     | Inr rest \<Rightarrow> Inr (i # rest))))"

definition introspect :: "store \<Rightarrow> 'b ServiceInterface \<Rightarrow> error + intr_Interface" where
  "introspect h self =
     (case visible_properties h (i_properties self) of
        Inl e \<Rightarrow> Inl e
      | Inr props \<Rightarrow>
          Inr \<lparr> intr_name = i_name self,
                intr_methods =
                  map m_introspection (filter (\<lambda>m. \<not> m_disabled m) (i_methods self)),
                intr_signals =
                  map s_introspection (filter (\<lambda>s. \<not> s_disabled s) (i_signals self)),
                intr_properties = props \<rparr>)"

section \<open>Notions used in the statements\<close>

text \<open>
  A property object is configured once \<^verbatim>\<open>set_options\<close> has run on it, which assigns the
  five attributes together. Every object that \<^verbatim>\<open>dbus_property\<close> or \<^verbatim>\<open>setter\<close> returns
  is configured.
\<close>

definition configured :: "Property_obj \<Rightarrow> bool" where
  "configured p \<longleftrightarrow>
     p_options p \<noteq> None \<and> p_name p \<noteq> None \<and> p_access p \<noteq> None \<and>
     p_disabled p \<noteq> None \<and> p_introspection p \<noteq> None"

text \<open>The collected properties whose \<^verbatim>\<open>name\<close> is \<open>n\<close>, in the order of the collection.\<close>

definition properties_named :: "store \<Rightarrow> nat list \<Rightarrow> string \<Rightarrow> nat list" where
  "properties_named h props n = filter (\<lambda>p. p_name (h p) = Some n) props"

text \<open>The property objects among the members of a class.\<close>

fun member_properties :: "(string \<times> member) list \<Rightarrow> nat list" where
  "member_properties [] = []"
| "member_properties ((name, PropertyObj m) # ms) = m # member_properties ms"
| "member_properties ((name, OtherObj md sg nm) # ms) = member_properties ms"

text \<open>The object at \<open>r\<close> has the function \<open>g\<close> as its getter.\<close>

definition has_getter :: "pyfn \<Rightarrow> store \<Rightarrow> nat \<Rightarrow> bool" where
  "has_getter g h r \<longleftrightarrow> fn_id (prop_getter (h r)) = fn_id g"

text \<open>
  The store after the inner loop of \<^verbatim>\<open>__init__\<close> has run for the member at \<open>m\<close> over the
  collected properties \<open>props\<close>, in closed form.
\<close>

definition merged :: "store \<Rightarrow> nat list \<Rightarrow> nat \<Rightarrow> store" where
  "merged h props m =
     (\<lambda>q. if q \<in> set props \<and> fn_id (prop_getter (h q)) = fn_id (prop_getter (h m)) \<and>
              prop_setter (h m) \<noteq> None
           then (h q)\<lparr> prop_setter := prop_setter (h m) \<rparr>
           else h q)"

section \<open>An example service\<close>

text \<open>
  The examples of the decorators' docstrings, used to run the definitions. The parser
  \<open>one_letter_types\<close> reads signatures made of one-letter basic types, one complete type
  per letter.
\<close>

definition one_letter_types :: parser where
  "one_letter_types s = Inr \<lparr> tree_signature = s, types = map (\<lambda>c. [c]) s \<rparr>"

text \<open>\<^verbatim>\<open>def string_signal(self, val) -> 's': return val\<close>\<close>

definition string_signal_fn :: pyfn where
  "string_signal_fn =
     \<lparr> fn_id = 1, fn_name = ''string_signal'',
       parameters = [(''self'', None), (''val'', None)],
       return_annotation = Some ''s'',
       call = (\<lambda>args. case args of [val] \<Rightarrow> Inr val | _ \<Rightarrow> Inl (Raised ''TypeError'')) \<rparr>"

text \<open>\<^verbatim>\<open>def two_strings_signal(self, val1, val2) -> 'ss': return [val1, val2]\<close>\<close>

definition two_strings_signal_fn :: pyfn where
  "two_strings_signal_fn =
     \<lparr> fn_id = 2, fn_name = ''two_strings_signal'',
       parameters = [(''self'', None), (''val1'', None), (''val2'', None)],
       return_annotation = Some ''ss'',
       call = (\<lambda>args. case args of
                       [val1, val2] \<Rightarrow> Inr (PList [val1, val2])
                     | _ \<Rightarrow> Inl (Raised ''TypeError'')) \<rparr>"

text \<open>\<^verbatim>\<open>def pair_signal(self, val1, val2) -> 'ss': return val1, val2\<close> returns a tuple.\<close>

definition pair_signal_fn :: pyfn where
  "pair_signal_fn =
     \<lparr> fn_id = 3, fn_name = ''pair_signal'',
       parameters = [(''self'', None), (''val1'', None), (''val2'', None)],
       return_annotation = Some ''ss'',
       call = (\<lambda>args. case args of
                       [val1, val2] \<Rightarrow> Inr (PTuple [val1, val2])
                     | _ \<Rightarrow> Inl (Raised ''TypeError'')) \<rparr>"

text \<open>\<^verbatim>\<open>def silent_signal(self) -> 's': pass\<close> returns \<^verbatim>\<open>None\<close>.\<close>

definition silent_signal_fn :: pyfn where
  "silent_signal_fn =
     \<lparr> fn_id = 4, fn_name = ''silent_signal'',
       parameters = [(''self'', None)],
       return_annotation = Some ''s'',
       call = (\<lambda>args. case args of [] \<Rightarrow> Inr PNone | _ \<Rightarrow> Inl (Raised ''TypeError'')) \<rparr>"

text \<open>\<^verbatim>\<open>def plain_signal(self, val): return val\<close> has no return annotation.\<close>

definition plain_signal_fn :: pyfn where
  "plain_signal_fn =
     \<lparr> fn_id = 5, fn_name = ''plain_signal'',
       parameters = [(''self'', None), (''val'', None)],
       return_annotation = None,
       call = (\<lambda>args. case args of [val] \<Rightarrow> Inr val | _ \<Rightarrow> Inl (Raised ''TypeError'')) \<rparr>"

text \<open>\<^verbatim>\<open>def echo(self, val: 's') -> 's': return val\<close>\<close>

definition echo_fn :: pyfn where
  "echo_fn =
     \<lparr> fn_id = 6, fn_name = ''echo'',
       parameters = [(''self'', None), (''val'', Some ''s'')],
       return_annotation = Some ''s'',
       call = (\<lambda>args. case args of [val] \<Rightarrow> Inr val | _ \<Rightarrow> Inl (Raised ''TypeError'')) \<rparr>"

text \<open>The descriptor that \<^verbatim>\<open>@signal(disabled=d)\<close> builds for a function, under this parser.\<close>

definition descriptor :: "bool \<Rightarrow> pyfn \<Rightarrow> Signal_obj" where
  "descriptor d fn =
     (case signal one_letter_types None d fn of
        Inr sg \<Rightarrow> sg
      | Inl e \<Rightarrow> \<lparr> s_signature = [], s_signature_tree = \<lparr> tree_signature = [], types = [] \<rparr>,
                   s_name = [], s_disabled = True, s_introspection = ISignal [] [] \<rparr>)"

definition example_interface :: "nat ServiceInterface" where
  "example_interface =
     \<lparr> i_name = ''org.example.Interface'', i_methods = [], i_properties = [], i_signals = [],
       i_buses = {||} \<rparr>"

text \<open>
  \<^verbatim>\<open>def string_prop(self) -> 's': return self._string_prop\<close> and the function given to
  \<^verbatim>\<open>@string_prop.setter\<close>, \<^verbatim>\<open>def string_prop_set(self, val: 's'): self._string_prop = val\<close>.
\<close>

definition string_prop_fn :: pyfn where
  "string_prop_fn =
     \<lparr> fn_id = 7, fn_name = ''string_prop'',
       parameters = [(''self'', None)],
       return_annotation = Some ''s'',
       call = (\<lambda>args. Inr (PStr ''kevin'')) \<rparr>"

definition string_prop_set_fn :: pyfn where
  "string_prop_set_fn =
     \<lparr> fn_id = 8, fn_name = ''string_prop_set'',
       parameters = [(''self'', None), (''val'', Some ''s'')],
       return_annotation = None,
       call = (\<lambda>args. Inr PNone) \<rparr>"

text \<open>\<^verbatim>\<open>def hidden(self) -> 'u': return 5\<close>, declared with READ access and disabled.\<close>

definition hidden_fn :: pyfn where
  "hidden_fn =
     \<lparr> fn_id = 9, fn_name = ''hidden'',
       parameters = [(''self'', None)],
       return_annotation = Some ''u'',
       call = (\<lambda>args. Inr (PInt 5)) \<rparr>"

text \<open>
  The three property objects these declarations create: the one \<^verbatim>\<open>@dbus_property()\<close>
  returns for \<^verbatim>\<open>string_prop\<close>, the one \<^verbatim>\<open>@string_prop.setter\<close> returns, and the one
  \<^verbatim>\<open>@dbus_property(PropertyAccess.READ, disabled=True)\<close> returns for \<^verbatim>\<open>hidden\<close>.
\<close>

definition string_prop_getter_only :: Property_obj where
  "string_prop_getter_only =
     \<lparr> prop_getter = string_prop_fn, prop_setter = None,
       p_signature = ''s'', p_type = ''s'',
       p_options = Some \<lparr> o_name = Some None, o_access = Some READWRITE,
                          o_disabled = Some False \<rparr>,
       p_name = Some ''string_prop'', p_access = Some READWRITE, p_disabled = Some False,
       p_introspection = Some (IProperty ''string_prop'' ''s'' READWRITE) \<rparr>"

definition string_prop_bound :: Property_obj where
  "string_prop_bound = string_prop_getter_only\<lparr> prop_setter := Some string_prop_set_fn \<rparr>"

definition hidden_prop :: Property_obj where
  "hidden_prop =
     \<lparr> prop_getter = hidden_fn, prop_setter = None,
       p_signature = ''u'', p_type = ''u'',
       p_options = Some \<lparr> o_name = Some None, o_access = Some READ,
                          o_disabled = Some True \<rparr>,
       p_name = Some ''hidden'', p_access = Some READ, p_disabled = Some True,
       p_introspection = Some (IProperty ''hidden'' ''u'' READ) \<rparr>"

text \<open>
  A store with the getter-only object at address 20, the bound object at 21 and the hidden
  property at 22, and the members of a class that binds \<^verbatim>\<open>hidden\<close>, \<^verbatim>\<open>string_prop\<close>,
  \<^verbatim>\<open>string_prop_set\<close> and \<^verbatim>\<open>string_signal\<close> next to an ordinary attribute, in the
  alphabetical order of \<^verbatim>\<open>inspect.getmembers\<close>. \<open>unbound_members\<close> is the class without the
  setter declaration.
\<close>

definition example_store :: store where
  "example_store =
     (\<lambda>r. if r = 21 then string_prop_bound else if r = 22 then hidden_prop
          else string_prop_getter_only)"

definition example_members :: "(string \<times> member) list" where
  "example_members =
     [(''__init__'', OtherObj None None None),
      (''hidden'', PropertyObj 22),
      (''string_prop'', PropertyObj 20),
      (''string_prop_set'', PropertyObj 21),
      (''string_signal'', OtherObj None (Some (descriptor False string_signal_fn)) None)]"

definition unbound_members :: "(string \<times> member) list" where
  "unbound_members =
     [(''__init__'', OtherObj None None None),
      (''hidden'', PropertyObj 22),
      (''string_prop'', PropertyObj 20)]"

text \<open>What constructing the interface from \<open>example_members\<close> gives.\<close>

definition registered_store :: store where
  "registered_store = example_store(20 := string_prop_bound)"

definition registered_interface :: "nat ServiceInterface" where
  "registered_interface =
     \<lparr> i_name = ''org.example.Interface'', i_methods = [], i_properties = [22, 20],
       i_signals = [descriptor False string_signal_fn], i_buses = {||} \<rparr>"

section \<open>Facts about the example service\<close>

lemma enumerates_sorted: "enumerates (sorted_list_of_fset :: nat fset \<Rightarrow> nat list)"
  by (simp add: enumerates_def) (simp add: sorted_list_of_fset.rep_eq)

lemma sorted_one: "sorted_list_of_fset {|10::nat|} = [10]"
  by code_simp

lemma sorted_two:
  "sorted_list_of_fset {|10::nat, 20|} = [10, 20]"
  "sorted_list_of_fset {|20::nat, 10|} = [10, 20]"
  by code_simp+

lemma descriptor_string_signal:
  "descriptor d string_signal_fn =
     \<lparr> s_signature = ''s'',
           s_signature_tree = \<lparr> tree_signature = ''s'', types = [''s''] \<rparr>,
           s_name = ''string_signal'', s_disabled = d,
           s_introspection = ISignal ''string_signal'' [Arg ''s'' OUT None] \<rparr>"
  by (simp add: descriptor_def signal_def Signal_init_def member_name_def
      one_letter_types_def string_signal_fn_def)

lemma descriptor_two_strings_signal:
  "descriptor d two_strings_signal_fn =
     \<lparr> s_signature = ''ss'',
           s_signature_tree = \<lparr> tree_signature = ''ss'', types = [''s'', ''s''] \<rparr>,
           s_name = ''two_strings_signal'', s_disabled = d,
           s_introspection =
             ISignal ''two_strings_signal'' [Arg ''s'' OUT None, Arg ''s'' OUT None] \<rparr>"
  by (simp add: descriptor_def signal_def Signal_init_def member_name_def
      one_letter_types_def two_strings_signal_fn_def)

lemma descriptor_pair_signal:
  "descriptor d pair_signal_fn =
     \<lparr> s_signature = ''ss'',
           s_signature_tree = \<lparr> tree_signature = ''ss'', types = [''s'', ''s''] \<rparr>,
           s_name = ''pair_signal'', s_disabled = d,
           s_introspection =
             ISignal ''pair_signal'' [Arg ''s'' OUT None, Arg ''s'' OUT None] \<rparr>"
  by (simp add: descriptor_def signal_def Signal_init_def member_name_def
      one_letter_types_def pair_signal_fn_def)

lemma descriptor_silent_signal:
  "descriptor d silent_signal_fn =
     \<lparr> s_signature = ''s'',
           s_signature_tree = \<lparr> tree_signature = ''s'', types = [''s''] \<rparr>,
           s_name = ''silent_signal'', s_disabled = d,
           s_introspection = ISignal ''silent_signal'' [Arg ''s'' OUT None] \<rparr>"
  by (simp add: descriptor_def signal_def Signal_init_def member_name_def
      one_letter_types_def silent_signal_fn_def)

lemma descriptor_plain_signal:
  "descriptor d plain_signal_fn =
     \<lparr> s_signature = [],
           s_signature_tree = \<lparr> tree_signature = [], types = [] \<rparr>,
           s_name = ''plain_signal'', s_disabled = d,
           s_introspection = ISignal ''plain_signal'' [] \<rparr>"
  by (simp add: descriptor_def signal_def Signal_init_def member_name_def
      one_letter_types_def plain_signal_fn_def)

lemma descriptors_built:
  "signal one_letter_types None d string_signal_fn = Inr (descriptor d string_signal_fn)"
  "signal one_letter_types None d two_strings_signal_fn =
     Inr (descriptor d two_strings_signal_fn)"
  "signal one_letter_types None d pair_signal_fn = Inr (descriptor d pair_signal_fn)"
  "signal one_letter_types None d silent_signal_fn = Inr (descriptor d silent_signal_fn)"
  "signal one_letter_types None d plain_signal_fn = Inr (descriptor d plain_signal_fn)"
  by (simp_all add: descriptor_def signal_def Signal_init_def one_letter_types_def
      string_signal_fn_def two_strings_signal_fn_def pair_signal_fn_def silent_signal_fn_def
      plain_signal_fn_def)

lemma example_calls:
  "call string_signal_fn [v] = Inr v" "fn_id string_signal_fn = 1"
  "call two_strings_signal_fn [v, w] = Inr (PList [v, w])" "fn_id two_strings_signal_fn = 2"
  "call pair_signal_fn [v, w] = Inr (PTuple [v, w])" "fn_id pair_signal_fn = 3"
  "call silent_signal_fn [] = Inr PNone" "fn_id silent_signal_fn = 4"
  "call plain_signal_fn [v] = Inr v" "fn_id plain_signal_fn = 5"
  "call echo_fn [v] = Inr v" "fn_id echo_fn = 6"
  by (simp_all add: string_signal_fn_def two_strings_signal_fn_def pair_signal_fn_def
      silent_signal_fn_def plain_signal_fn_def echo_fn_def)

lemmas descriptors =
  descriptor_string_signal descriptor_two_strings_signal
  descriptor_pair_signal descriptor_silent_signal descriptor_plain_signal

lemmas example_defs =
  example_interface_def add_bus_def get_buses_def sorted_one sorted_two

section \<open>Signals\<close>

lemma two_orders:
  assumes "enumerates ord" and "b1 \<noteq> b2"
  shows "ord {|b2, b1|} = [b1, b2] \<or> ord {|b2, b1|} = [b2, b1]"
proof -
  from assms(1) have s: "fset_of_list (ord {|b2, b1|}) = {|b2, b1|}"
    and d: "distinct (ord {|b2, b1|})"
    by (simp_all add: enumerates_def)
  from s have st: "set (ord {|b2, b1|}) = {b1, b2}"
    by (metis fset_of_list.rep_eq finsert.rep_eq bot_fset.rep_eq insert_commute)
  with d have "length (ord {|b2, b1|}) = 2"
    using assms(2) by (metis distinct_card card_2_iff)
  then obtain x y where xy: "ord {|b2, b1|} = [x, y]"
    by (metis (no_types) length_0_conv length_Suc_conv numeral_2_eq_2)
  with st d show ?thesis by (auto simp: doubleton_eq_iff)
qed

text \<open>
  C6. Calling the trigger of a disabled signal raises \<^verbatim>\<open>SignalDisabledError\<close>; the trace
  is empty, so the decorated function was not run and no bus was notified.
\<close>

theorem disabled_signal_fails:
  "s_disabled sg \<Longrightarrow>
   signal_wrapped ord fn sg self args =
     (Inl (SignalDisabledError ''Tried to call a disabled signal''), [])"
  by (simp add: signal_wrapped_def)

theorem disabled_signal_fails_witness:
  "s_disabled (descriptor True string_signal_fn) \<and>
   signal_wrapped sorted_list_of_fset string_signal_fn (descriptor True string_signal_fn)
       (add_bus example_interface 10) [PStr ''hello''] =
     (Inl (SignalDisabledError ''Tried to call a disabled signal''), [])"
  using disabled_signal_fails [of "descriptor True string_signal_fn" sorted_list_of_fset
      string_signal_fn "add_bus example_interface 10" "[PStr ''hello'']"]
  by (simp add: descriptors)

text \<open>
  C1, as the code has it. When the decorated function of an enabled signal returns
  \<^verbatim>\<open>None\<close>, the call does not fail, whatever the number of declared OUT arguments: the
  body is the empty list, every attached bus is notified with it, and \<^verbatim>\<open>None\<close> is
  returned.
\<close>

theorem none_result_sends_empty_body:
  "\<not> s_disabled sg \<Longrightarrow> call fn args = Inr PNone \<Longrightarrow>
   signal_wrapped ord fn sg self args =
     (Inr PNone,
      Call (fn_id fn) args #
      map (\<lambda>bus. Notify bus (i_name self) (s_name sg) (s_signature sg) [])
          (ord (get_buses self)))"
  by (simp add: signal_wrapped_def handle_signal_def fn_result_to_body_def)

theorem none_result_sends_empty_body_witness:
  "\<not> s_disabled (descriptor False silent_signal_fn) \<and>
   call silent_signal_fn [] = Inr PNone \<and>
   signal_wrapped sorted_list_of_fset silent_signal_fn (descriptor False silent_signal_fn)
       (add_bus (add_bus example_interface 10) 20) [] =
     (Inr PNone,
      [Call 4 [],
       Notify 10 ''org.example.Interface'' ''silent_signal'' ''s'' [],
       Notify 20 ''org.example.Interface'' ''silent_signal'' ''s'' []])"
  using none_result_sends_empty_body [of "descriptor False silent_signal_fn" silent_signal_fn
      "[]" sorted_list_of_fset "add_bus (add_bus example_interface 10) 20"]
  by (simp add: descriptors example_defs example_calls)

text \<open>
  C1, as stated, fails: the signal \<^verbatim>\<open>silent_signal\<close> declares one OUT argument and its
  function returns \<^verbatim>\<open>None\<close>, yet the call returns normally and the attached bus is
  notified with an empty body.
\<close>

theorem none_result_counterexample:
  "0 < length (types (s_signature_tree (descriptor False silent_signal_fn))) \<and>
   call silent_signal_fn [] = Inr PNone \<and>
   signal_wrapped sorted_list_of_fset silent_signal_fn (descriptor False silent_signal_fn)
       (add_bus example_interface 10) [] =
     (Inr PNone, [Call 4 [], Notify 10 ''org.example.Interface'' ''silent_signal'' ''s'' []])"
  by (simp add: descriptors example_defs example_calls signal_wrapped_def
      handle_signal_def fn_result_to_body_def)

text \<open>
  C2, as the code has it. When the decorated function of an enabled signal returns a
  value \<open>r\<close> other than \<^verbatim>\<open>None\<close>: with exactly one declared OUT argument the body is
  \<open>[r]\<close>, whatever \<open>r\<close> is; with more than one, the body is \<open>r\<close> itself when \<open>r\<close> is a
  \<^verbatim>\<open>list\<close>, and for any other value (a tuple included) the call raises
  \<^verbatim>\<open>SignatureBodyMismatchError\<close> after the function has run and before any bus is
  notified.
\<close>

theorem present_result_body:
  assumes "\<not> s_disabled sg" and "call fn args = Inr r" and "r \<noteq> PNone"
  shows "(length (types (s_signature_tree sg)) = 1 \<longrightarrow>
            signal_wrapped ord fn sg self args =
              (Inr r, Call (fn_id fn) args #
                 map (\<lambda>bus. Notify bus (i_name self) (s_name sg) (s_signature sg) [r])
                     (ord (get_buses self)))) \<and>
         (1 < length (types (s_signature_tree sg)) \<longrightarrow>
            signal_wrapped ord fn sg self args =
              (case r of
                 PList xs \<Rightarrow>
                   (Inr r, Call (fn_id fn) args #
                      map (\<lambda>bus. Notify bus (i_name self) (s_name sg) (s_signature sg) xs)
                          (ord (get_buses self)))
               | _ \<Rightarrow>
                   (Inl (SignatureBodyMismatchError
                           ''Expected function to return a list of arguments''),
                    [Call (fn_id fn) args])))"
  using assms
  by (cases r) (simp_all add: signal_wrapped_def handle_signal_def fn_result_to_body_def)

theorem present_result_body_witness:
  "(\<not> s_disabled (descriptor False string_signal_fn) \<and>
    call string_signal_fn [PList [PInt 7]] = Inr (PList [PInt 7]) \<and>
    PList [PInt 7] \<noteq> PNone \<and>
    length (types (s_signature_tree (descriptor False string_signal_fn))) = 1 \<and>
    signal_wrapped sorted_list_of_fset string_signal_fn (descriptor False string_signal_fn)
        (add_bus example_interface 10) [PList [PInt 7]] =
      (Inr (PList [PInt 7]),
       [Call 1 [PList [PInt 7]],
        Notify 10 ''org.example.Interface'' ''string_signal'' ''s'' [PList [PInt 7]]])) \<and>
   (\<not> s_disabled (descriptor False two_strings_signal_fn) \<and>
    call two_strings_signal_fn [PStr ''a'', PStr ''b''] = Inr (PList [PStr ''a'', PStr ''b'']) \<and>
    PList [PStr ''a'', PStr ''b''] \<noteq> PNone \<and>
    1 < length (types (s_signature_tree (descriptor False two_strings_signal_fn))) \<and>
    signal_wrapped sorted_list_of_fset two_strings_signal_fn
        (descriptor False two_strings_signal_fn)
        (add_bus example_interface 10) [PStr ''a'', PStr ''b''] =
      (Inr (PList [PStr ''a'', PStr ''b'']),
       [Call 2 [PStr ''a'', PStr ''b''],
        Notify 10 ''org.example.Interface'' ''two_strings_signal'' ''ss''
          [PStr ''a'', PStr ''b'']]))"
  using present_result_body [of "descriptor False string_signal_fn" string_signal_fn
      "[PList [PInt 7]]" "PList [PInt 7]" sorted_list_of_fset "add_bus example_interface 10"]
    present_result_body [of "descriptor False two_strings_signal_fn" two_strings_signal_fn
      "[PStr ''a'', PStr ''b'']" "PList [PStr ''a'', PStr ''b'']" sorted_list_of_fset
      "add_bus example_interface 10"]
  by (simp add: descriptors example_defs example_calls)

text \<open>
  C2, as stated, fails: a tuple is an ordered sequence, but the signal \<^verbatim>\<open>pair_signal\<close>,
  declared with \<^verbatim>\<open>'ss'\<close> and returning the tuple \<^verbatim>\<open>('a', 'b')\<close>, raises the mismatch error
  instead of sending the body \<^verbatim>\<open>('a', 'b')\<close>.
\<close>

theorem tuple_result_counterexample:
  "1 < length (types (s_signature_tree (descriptor False pair_signal_fn))) \<and>
   call pair_signal_fn [PStr ''a'', PStr ''b''] = Inr (PTuple [PStr ''a'', PStr ''b'']) \<and>
   signal_wrapped sorted_list_of_fset pair_signal_fn (descriptor False pair_signal_fn)
       (add_bus example_interface 10) [PStr ''a'', PStr ''b''] =
     (Inl (SignatureBodyMismatchError ''Expected function to return a list of arguments''),
      [Call 3 [PStr ''a'', PStr ''b'']])"
  by (simp add: descriptors example_defs example_calls signal_wrapped_def
      handle_signal_def fn_result_to_body_def)

text \<open>
  C8. When a signal declares no OUT argument and its function returns a value other than
  \<^verbatim>\<open>None\<close>, the call raises \<^verbatim>\<open>SignatureBodyMismatchError\<close> with the message that the
  function was not expected to return an argument; the function has run and no bus is
  notified.
\<close>

theorem unexpected_result_fails:
  "\<not> s_disabled sg \<Longrightarrow> length (types (s_signature_tree sg)) = 0 \<Longrightarrow>
   call fn args = Inr r \<Longrightarrow> r \<noteq> PNone \<Longrightarrow>
   signal_wrapped ord fn sg self args =
     (Inl (SignatureBodyMismatchError ''Function was not expected to return an argument''),
      [Call (fn_id fn) args])"
  by (simp add: signal_wrapped_def handle_signal_def fn_result_to_body_def)

theorem unexpected_result_fails_witness:
  "return_annotation plain_signal_fn = None \<and>
   \<not> s_disabled (descriptor False plain_signal_fn) \<and>
   length (types (s_signature_tree (descriptor False plain_signal_fn))) = 0 \<and>
   call plain_signal_fn [PStr ''x''] = Inr (PStr ''x'') \<and>
   PStr ''x'' \<noteq> PNone \<and>
   signal_wrapped sorted_list_of_fset plain_signal_fn (descriptor False plain_signal_fn)
       (add_bus example_interface 10) [PStr ''x''] =
     (Inl (SignatureBodyMismatchError ''Function was not expected to return an argument''),
      [Call 5 [PStr ''x'']])"
  using unexpected_result_fails [of "descriptor False plain_signal_fn" plain_signal_fn
      "[PStr ''x'']" "PStr ''x''" sorted_list_of_fset "add_bus example_interface 10"]
  by (simp add: descriptors example_calls) (simp add: plain_signal_fn_def)

text \<open>
  C7, as the code has it. After two different buses are attached to an interface that had
  none, a signal call that produces a body notifies both buses, each once and each with
  the same interface name, member name, signature and body. The order is the iteration
  order of the set of buses: either of the two orders, not necessarily the order of
  attachment.
\<close>

theorem two_buses_both_notified:
  assumes "enumerates ord" and "b1 \<noteq> b2" and "i_buses self = {||}"
    and "\<not> s_disabled sg" and "call fn args = Inr r"
    and "fn_result_to_body r (s_signature_tree sg) = Inr body"
  shows "\<exists>bs. (bs = [b1, b2] \<or> bs = [b2, b1]) \<and>
           signal_wrapped ord fn sg (add_bus (add_bus self b1) b2) args =
             (Inr r, Call (fn_id fn) args #
                map (\<lambda>bus. Notify bus (i_name self) (s_name sg) (s_signature sg) body) bs)"
proof -
  have "i_buses (add_bus (add_bus self b1) b2) = {|b2, b1|}"
    using assms(3) by (simp add: add_bus_def)
  moreover have "i_name (add_bus (add_bus self b1) b2) = i_name self"
    by (simp add: add_bus_def)
  ultimately have "signal_wrapped ord fn sg (add_bus (add_bus self b1) b2) args =
      (Inr r, Call (fn_id fn) args #
         map (\<lambda>bus. Notify bus (i_name self) (s_name sg) (s_signature sg) body)
             (ord {|b2, b1|}))"
    using assms(4-6) by (simp add: signal_wrapped_def handle_signal_def get_buses_def)
  with two_orders [OF assms(1,2)] show ?thesis by auto
qed

theorem two_buses_both_notified_witness:
  "enumerates (sorted_list_of_fset :: nat fset \<Rightarrow> nat list) \<and> (10::nat) \<noteq> 20 \<and>
   i_buses example_interface = {||} \<and>
   \<not> s_disabled (descriptor False string_signal_fn) \<and>
   call string_signal_fn [PStr ''x''] = Inr (PStr ''x'') \<and>
   fn_result_to_body (PStr ''x'') (s_signature_tree (descriptor False string_signal_fn)) =
     Inr [PStr ''x''] \<and>
   (\<exists>bs. (bs = [10, 20] \<or> bs = [20, 10]) \<and>
      signal_wrapped sorted_list_of_fset string_signal_fn (descriptor False string_signal_fn)
          (add_bus (add_bus example_interface 10) 20) [PStr ''x''] =
        (Inr (PStr ''x''), Call (fn_id string_signal_fn) [PStr ''x''] #
           map (\<lambda>bus. Notify bus (i_name example_interface)
                         (s_name (descriptor False string_signal_fn))
                         (s_signature (descriptor False string_signal_fn)) [PStr ''x''])
               bs))"
proof -
  have a: "enumerates (sorted_list_of_fset :: nat fset \<Rightarrow> nat list)"
    by (rule enumerates_sorted)
  have b: "(10::nat) \<noteq> 20" by simp
  have c: "i_buses example_interface = {||}" by (simp add: example_interface_def)
  have d: "\<not> s_disabled (descriptor False string_signal_fn)" by (simp add: descriptors)
  have e: "call string_signal_fn [PStr ''x''] = Inr (PStr ''x'')" by (simp add: example_calls)
  have f: "fn_result_to_body (PStr ''x'') (s_signature_tree (descriptor False string_signal_fn))
             = Inr [PStr ''x'']"
    by (simp add: descriptors fn_result_to_body_def)
  from two_buses_both_notified [OF a b c d e f] a b c d e f show ?thesis by blast
qed

text \<open>
  C7, as stated, fails: bus 20 is attached first and bus 10 second, and under an
  iteration order that a set of two buses can have (here by increasing key, as for a
  hash table whose slots follow the keys) bus 10 is notified first.
\<close>

theorem attachment_order_counterexample:
  "enumerates (sorted_list_of_fset :: nat fset \<Rightarrow> nat list) \<and>
   signal_wrapped sorted_list_of_fset string_signal_fn (descriptor False string_signal_fn)
       (add_bus (add_bus example_interface 20) 10) [PStr ''x''] =
     (Inr (PStr ''x''),
      [Call 1 [PStr ''x''],
       Notify 10 ''org.example.Interface'' ''string_signal'' ''s'' [PStr ''x''],
       Notify 20 ''org.example.Interface'' ''string_signal'' ''s'' [PStr ''x'']])"
  by (simp add: enumerates_sorted descriptors example_defs example_calls signal_wrapped_def
      handle_signal_def fn_result_to_body_def)

section \<open>Methods\<close>

text \<open>
  C9. Calling the wrapper that the \<^verbatim>\<open>method\<close> decorator returns runs the decorated
  function and, when that returns a value, returns \<^verbatim>\<open>None\<close> whatever the value was.
\<close>

theorem method_wrapper_returns_none:
  "call fn args = Inr r \<Longrightarrow>
   (method_wrapped fn args :: (error + pyval) \<times> 'b event list) =
     (Inr PNone, [Call (fn_id fn) args])"
  by (simp add: method_wrapped_def)

theorem method_wrapper_returns_none_witness:
  "(\<exists>m. method_decorator one_letter_types None False echo_fn = Inr m) \<and>
   call echo_fn [PStr ''hello''] = Inr (PStr ''hello'') \<and>
   (method_wrapped echo_fn [PStr ''hello''] :: (error + pyval) \<times> nat event list) =
     (Inr PNone, [Call 6 [PStr ''hello'']])"
  using method_wrapper_returns_none [of echo_fn "[PStr ''hello'']" "PStr ''hello''"]
  by (simp add: example_calls)
    (simp add: method_decorator_def Method_init_def one_letter_types_def echo_fn_def)

section \<open>Properties\<close>

lemma example_properties:
  "dbus_property one_letter_types READWRITE None False string_prop_fn =
     Inr string_prop_getter_only"
  "setter one_letter_types string_prop_getter_only string_prop_set_fn = Inr string_prop_bound"
  "dbus_property one_letter_types READ None True hidden_fn = Inr hidden_prop"
  by (simp_all add: dbus_property_def setter_def Property_init_def set_options_def
      options_update_def no_options_def one_letter_types_def Let_def string_prop_fn_def
      hidden_fn_def string_prop_getter_only_def string_prop_bound_def hidden_prop_def)

lemma example_store_at:
  "example_store 20 = string_prop_getter_only" "example_store 21 = string_prop_bound"
  "example_store 22 = hidden_prop"
  "registered_store 20 = string_prop_bound" "registered_store 21 = string_prop_bound"
  "registered_store 22 = hidden_prop"
  by (simp_all add: example_store_def registered_store_def)

lemma example_getters:
  "fn_id (prop_getter string_prop_getter_only) = 7"
  "fn_id (prop_getter string_prop_bound) = 7"
  "fn_id (prop_getter hidden_prop) = 9"
  "prop_setter string_prop_getter_only = None"
  "prop_setter string_prop_bound = Some string_prop_set_fn"
  "prop_setter hidden_prop = None"
  "p_access string_prop_getter_only = Some READWRITE"
  "p_access string_prop_bound = Some READWRITE"
  "p_access hidden_prop = Some READ"
  "p_name string_prop_getter_only = Some ''string_prop''"
  "p_name string_prop_bound = Some ''string_prop''"
  "p_name hidden_prop = Some ''hidden''"
  by (simp_all add: string_prop_getter_only_def string_prop_bound_def hidden_prop_def
      string_prop_fn_def hidden_fn_def)

lemma example_configured:
  "configured string_prop_getter_only" "configured string_prop_bound" "configured hidden_prop"
  by (simp_all add: configured_def string_prop_getter_only_def string_prop_bound_def
      hidden_prop_def)

lemma example_signatures:
  "p_signature string_prop_bound = ''s''" "p_signature hidden_prop = ''u''"
  "p_disabled string_prop_bound = Some False" "p_disabled hidden_prop = Some True"
  "p_introspection string_prop_bound = Some (IProperty ''string_prop'' ''s'' READWRITE)"
  by (simp_all add: string_prop_getter_only_def string_prop_bound_def hidden_prop_def)

lemma registered_buses:
  "i_properties (add_bus (add_bus registered_interface 10) 20) = [22, 20]"
  "i_buses (add_bus (add_bus registered_interface 10) 20) = {|10, 20|}"
  "i_name (add_bus (add_bus registered_interface 10) 20) = ''org.example.Interface''"
  by (simp_all add: add_bus_def registered_interface_def finsert_commute)

lemma example_registration:
  "ServiceInterface_init example_store ''org.example.Interface'' example_members =
     Inr (registered_store, registered_interface)"
proof -
  have "example_store(20 := (example_store 20)\<lparr> prop_setter := prop_setter (example_store 21) \<rparr>)
          = registered_store"
    by (simp add: registered_store_def example_store_at string_prop_bound_def)
  then show ?thesis
    by (simp add: ServiceInterface_init_def fresh_interface_def example_members_def
        registered_interface_def example_store_at example_getters)
qed

subsection \<open>Registration\<close>

lemma validate_properties_None:
  "validate_properties h members props = None \<longleftrightarrow>
     (\<forall>p\<in>set props. \<exists>a. p_access (h p) = Some a \<and> (writable a \<longrightarrow> prop_setter (h p) \<noteq> None))"
  by (induction props) (auto split: option.splits)

text \<open>
  C3. Let the first loop of \<^verbatim>\<open>__init__\<close> have collected the properties. If one of them
  has a writable access mode (WRITE or READWRITE) and no setter, the construction raises
  and no interface results; hence, whenever the construction returns an interface, every
  collected property has an access mode and, if that is writable, a setter.
\<close>

theorem writable_property_needs_setter:
  assumes "collect_members h members (fresh_interface name) = (h', self :: 'b ServiceInterface)"
  shows "((\<exists>p\<in>set (i_properties self).
             \<exists>a. p_access (h' p) = Some a \<and> writable a \<and> prop_setter (h' p) = None) \<longrightarrow>
          (\<exists>e. ServiceInterface_init h name members =
                (Inl e :: error + store \<times> 'b ServiceInterface))) \<and>
         (\<forall>st i. ServiceInterface_init h name members = Inr (st, i) \<longrightarrow>
            st = h' \<and> i = self \<and>
            (\<forall>p\<in>set (i_properties i).
               \<exists>a. p_access (st p) = Some a \<and> (writable a \<longrightarrow> prop_setter (st p) \<noteq> None)))"
proof (cases "validate_properties h' members (i_properties self)")
  case None
  then have ok: "\<forall>p\<in>set (i_properties self).
      \<exists>a. p_access (h' p) = Some a \<and> (writable a \<longrightarrow> prop_setter (h' p) \<noteq> None)"
    by (simp add: validate_properties_None)
  have "ServiceInterface_init h name members = Inr (h', self)"
    using assms None by (simp add: ServiceInterface_init_def)
  with ok show ?thesis by fastforce
next
  case (Some e)
  then have "ServiceInterface_init h name members =
      (Inl e :: error + store \<times> 'b ServiceInterface)"
    using assms by (simp add: ServiceInterface_init_def)
  then show ?thesis by simp
qed


theorem writable_property_needs_setter_witness:
  "collect_members example_store unbound_members (fresh_interface ''org.example.Interface'') =
     (example_store,
      (fresh_interface ''org.example.Interface'' :: nat ServiceInterface)
        \<lparr> i_properties := [22, 20] \<rparr>) \<and>
   (\<exists>p\<in>set [22, 20::nat].
      \<exists>a. p_access (example_store p) = Some a \<and> writable a \<and>
          prop_setter (example_store p) = None) \<and>
   (\<exists>e. ServiceInterface_init example_store ''org.example.Interface'' unbound_members =
         (Inl e :: error + store \<times> nat ServiceInterface)) \<and>
   collect_members example_store example_members (fresh_interface ''org.example.Interface'') =
     (registered_store, registered_interface) \<and>
   ServiceInterface_init example_store ''org.example.Interface'' example_members =
     Inr (registered_store, registered_interface) \<and>
   i_properties registered_interface = [22, 20] \<and>
   p_access (registered_store 22) = Some READ \<and> \<not> writable READ \<and>
   p_access (registered_store 20) = Some READWRITE \<and>
   prop_setter (registered_store 20) \<noteq> None"
proof -
  have a: "collect_members example_store unbound_members
             (fresh_interface ''org.example.Interface'') =
           (example_store,
            (fresh_interface ''org.example.Interface'' :: nat ServiceInterface)
              \<lparr> i_properties := [22, 20] \<rparr>)"
    by (simp add: unbound_members_def fresh_interface_def example_store_at example_getters)
  have b: "\<exists>p\<in>set [22, 20::nat].
      \<exists>a. p_access (example_store p) = Some a \<and> writable a \<and>
          prop_setter (example_store p) = None"
    by (simp add: example_store_at example_getters)
  have c: "ServiceInterface_init example_store ''org.example.Interface'' example_members =
      Inr (registered_store, registered_interface)"
    by (rule example_registration)
  then have d: "collect_members example_store example_members
      (fresh_interface ''org.example.Interface'') = (registered_store, registered_interface)"
    by (auto simp: ServiceInterface_init_def split: prod.splits option.splits)
  from writable_property_needs_setter [OF a] b
  have "\<exists>e. ServiceInterface_init example_store ''org.example.Interface'' unbound_members =
         (Inl e :: error + store \<times> nat ServiceInterface)"
    by auto
  moreover from writable_property_needs_setter [OF d] c
  have "\<forall>p\<in>set (i_properties registered_interface).
      \<exists>a. p_access (registered_store p) = Some a \<and>
          (writable a \<longrightarrow> prop_setter (registered_store p) \<noteq> None)"
    by blast
  then have "prop_setter (registered_store 20) \<noteq> None"
    by (simp add: registered_interface_def example_store_at example_getters)
  moreover have "i_properties registered_interface = [22, 20]"
    "p_access (registered_store 22) = Some READ" "\<not> writable READ"
    "p_access (registered_store 20) = Some READWRITE"
    by (simp_all add: registered_interface_def example_store_at example_getters)
  ultimately show ?thesis using a b c d by blast
qed

subsection \<open>Getter and setter declarations\<close>

lemma merged_Nil: "merged h [] m = h"
  by (simp add: merged_def)

lemma merged_skip:
  "fn_id (prop_getter (h p)) \<noteq> fn_id (prop_getter (h m)) \<Longrightarrow>
   merged h (p # props) m = merged h props m"
  by (auto simp: merged_def fun_eq_iff)

lemma merged_None:
  "prop_setter (h m) = None \<Longrightarrow> merged h props m = h"
  by (auto simp: merged_def fun_eq_iff)

lemma merged_step:
  assumes same: "fn_id (prop_getter (h p)) = fn_id (prop_getter (h m))"
    and some: "prop_setter (h m) \<noteq> None"
  shows "merged (h(p := (h p)\<lparr> prop_setter := prop_setter (h m) \<rparr>)) props m =
         merged h (p # props) m"
proof
  fix q
  let ?x = "prop_setter (h m)"
  let ?h = "h(p := (h p)\<lparr> prop_setter := ?x \<rparr>)"
  have hm: "?h m = h m" by (cases "m = p") simp_all
  have hg: "\<And>r. prop_getter (?h r) = prop_getter (h r)" by simp
  show "merged ?h props m q = merged h (p # props) m q"
  proof (cases "q = p")
    case True
    have "merged ?h props m p = (h p)\<lparr> prop_setter := ?x \<rparr>"
      unfolding merged_def hm hg by simp
    moreover have "merged h (p # props) m p = (h p)\<lparr> prop_setter := ?x \<rparr>"
      unfolding merged_def using same some by simp
    ultimately show ?thesis using True by simp
  next
    case False
    have "merged ?h props m q =
        (if q \<in> set props \<and> fn_id (prop_getter (h q)) = fn_id (prop_getter (h m)) \<and> ?x \<noteq> None
         then (h q)\<lparr> prop_setter := ?x \<rparr> else h q)"
      unfolding merged_def hm hg using False some by auto
    moreover have "merged h (p # props) m q =
        (if q \<in> set props \<and> fn_id (prop_getter (h q)) = fn_id (prop_getter (h m)) \<and> ?x \<noteq> None
         then (h q)\<lparr> prop_setter := ?x \<rparr> else h q)"
      unfolding merged_def using False some by auto
    ultimately show ?thesis by simp
  qed
qed

lemma merge_property_eq:
  "merge_property h props m found =
     (merged h props m,
      found \<or> (\<exists>q\<in>set props. fn_id (prop_getter (h q)) = fn_id (prop_getter (h m))))"
proof (induction props arbitrary: h found)
  case Nil
  then show ?case by (simp add: merged_Nil)
next
  case (Cons p props)
  show ?case
  proof (cases "fn_id (prop_getter (h p)) = fn_id (prop_getter (h m))")
    case False
    then show ?thesis by (simp add: Cons.IH merged_skip)
  next
    case same: True
    show ?thesis
    proof (cases "prop_setter (h m) = None")
      case True
      then show ?thesis using same by (simp add: Cons.IH merged_None)
    next
      case False
      let ?h = "h(p := (h p)\<lparr> prop_setter := prop_setter (h m) \<rparr>)"
      have "merge_property h (p # props) m found = merge_property ?h props m True"
        using same False by simp
      also have "\<dots> = (merged ?h props m, True)"
        unfolding Cons.IH by simp
      also have "merged ?h props m = merged h (p # props) m"
        by (rule merged_step [OF same False])
      finally show ?thesis using same by simp
    qed
  qed
qed

lemma has_getter_merged: "has_getter g (merged h props m) = has_getter g h"
  by (rule ext) (simp add: has_getter_def merged_def)

lemma merged_cases:
  assumes p2: "p2 = p1\<lparr> prop_setter := Some s \<rparr>" and s1: "prop_setter p1 = None"
    and Mm: "has_getter g h m \<longrightarrow> h m = p1 \<or> h m = p2"
    and Ia: "\<forall>r\<in>set props. has_getter g h r \<longrightarrow> h r = p1 \<or> h r = p2"
    and Gq: "has_getter g h q"
  shows "merged h props m q = h q \<or> (h m = p2 \<and> merged h props m q = p2)"
proof (cases "q \<in> set props \<and> fn_id (prop_getter (h q)) = fn_id (prop_getter (h m)) \<and>
              prop_setter (h m) \<noteq> None")
  case False
  then have "merged h props m q = h q" unfolding merged_def by auto
  then show ?thesis by simp
next
  case True
  then have up: "merged h props m q = (h q)\<lparr> prop_setter := prop_setter (h m) \<rparr>"
    unfolding merged_def by simp
  from True Gq have "has_getter g h m" by (simp add: has_getter_def)
  with Mm True s1 have hm: "h m = p2" by auto
  then have sm: "prop_setter (h m) = Some s" by (simp add: p2)
  from Ia True Gq have "h q = p1 \<or> h q = p2" by simp
  then have "(h q)\<lparr> prop_setter := Some s \<rparr> = p2" by (auto simp: p2)
  with up sm hm show ?thesis by simp
qed

lemma merged_keeps_bound:
  assumes p2: "p2 = p1\<lparr> prop_setter := Some s \<rparr>" and s1: "prop_setter p1 = None"
    and g1: "prop_getter p1 = g"
    and Mm: "has_getter g h m \<longrightarrow> h m = p1 \<or> h m = p2"
    and Ia: "\<forall>r\<in>set props. has_getter g h r \<longrightarrow> h r = p1 \<or> h r = p2"
    and q: "h q = p2"
  shows "merged h props m q = p2"
proof -
  have "has_getter g h q" using q by (simp add: has_getter_def p2 g1)
  from merged_cases [OF p2 s1 Mm Ia this] q show ?thesis by auto
qed

lemma merged_binds:
  assumes p2: "p2 = p1\<lparr> prop_setter := Some s \<rparr>"
    and Ia: "\<forall>r\<in>set props. has_getter g h r \<longrightarrow> h r = p1 \<or> h r = p2"
    and m: "h m = p2" and g1: "prop_getter p1 = g"
    and q: "q \<in> set props" "has_getter g h q"
  shows "merged h props m q = p2"
proof -
  have sm: "prop_setter (h m) = Some s" using m by (simp add: p2)
  have "fn_id (prop_getter (h q)) = fn_id (prop_getter (h m))"
    using q(2) m by (simp add: has_getter_def p2 g1)
  then have "merged h props m q = (h q)\<lparr> prop_setter := Some s \<rparr>"
    unfolding merged_def using q(1) sm by simp
  moreover from Ia q have "h q = p1 \<or> h q = p2" by simp
  then have "(h q)\<lparr> prop_setter := Some s \<rparr> = p2" by (auto simp: p2)
  ultimately show ?thesis by simp
qed

lemma filter_at_most_one:
  assumes "length (filter P xs) \<le> 1" and "x \<in> set xs" and "P x"
  shows "filter P xs = [x]"
proof -
  from assms(2,3) have "x \<in> set (filter P xs)" by simp
  with assms(1) show ?thesis
    by (cases "filter P xs") (auto simp: length_Suc_conv)
qed


lemma collect_other:
  "\<exists>self1. collect_members h ((name, OtherObj md sg nm) # ms) self0 =
             collect_members h ms self1 \<and> i_properties self1 = i_properties self0"
  by (cases md; cases sg) auto

lemma collect_property:
  "collect_members h ((name, PropertyObj m) # ms) self0 =
     collect_members (merged h (i_properties self0) m) ms
       (if \<exists>q\<in>set (i_properties self0). fn_id (prop_getter (h q)) = fn_id (prop_getter (h m))
        then self0 else self0\<lparr> i_properties := i_properties self0 @ [m] \<rparr>)"
  by (simp add: merge_property_eq)

lemma collect_merges_getter:
  assumes p2: "p2 = p1\<lparr> prop_setter := Some s \<rparr>" and s1: "prop_setter p1 = None"
    and g1: "prop_getter p1 = g"
    and run: "collect_members h ms self0 = (h', self')"
    and M: "\<forall>r\<in>set (member_properties ms). has_getter g h r \<longrightarrow> h r = p1 \<or> h r = p2"
    and Ia: "\<forall>r\<in>set (i_properties self0). has_getter g h r \<longrightarrow> h r = p1 \<or> h r = p2"
    and Ib: "length (filter (has_getter g h) (i_properties self0)) \<le> 1"
    and B: "(\<exists>r\<in>set (member_properties ms). h r = p2) \<or>
            (\<exists>r. filter (has_getter g h) (i_properties self0) = [r] \<and> h r = p2)"
  shows "\<exists>r. filter (has_getter g h') (i_properties self') = [r] \<and> h' r = p2"
  using run M Ia Ib B
proof (induction ms arbitrary: h self0)
  case Nil
  then show ?case by simp
next
  case (Cons x ms)
  obtain name mem where x: "x = (name, mem)" by (cases x)
  show ?case
  proof (cases mem)
    case (OtherObj md sg nm)
    from collect_other [of h name md sg nm ms self0] obtain self1 where
      s: "collect_members h ((name, OtherObj md sg nm) # ms) self0 = collect_members h ms self1"
      and i: "i_properties self1 = i_properties self0"
      by blast
    have r: "collect_members h ms self1 = (h', self')"
      using Cons.prems(1) s by (simp add: x OtherObj)
    show ?thesis
      using Cons.IH [OF r] Cons.prems(2-5) by (simp add: x OtherObj i)
  next
    case (PropertyObj m)
    let ?props = "i_properties self0"
    let ?found = "\<exists>q\<in>set ?props. fn_id (prop_getter (h q)) = fn_id (prop_getter (h m))"
    let ?h1 = "merged h ?props m"
    let ?self1 = "if ?found then self0 else self0\<lparr> i_properties := ?props @ [m] \<rparr>"
    let ?G = "has_getter g h"
    have G1: "has_getter g ?h1 = ?G" by (rule has_getter_merged)
    have r: "collect_members ?h1 ms ?self1 = (h', self')"
      using Cons.prems(1) unfolding x PropertyObj collect_property .
    have Mm: "?G m \<longrightarrow> h m = p1 \<or> h m = p2"
      using Cons.prems(2) by (simp add: x PropertyObj)
    have Mrest: "\<forall>r\<in>set (member_properties ms). ?G r \<longrightarrow> h r = p1 \<or> h r = p2"
      using Cons.prems(2) by (simp add: x PropertyObj)
    have Ia': "\<forall>r\<in>set ?props. ?G r \<longrightarrow> h r = p1 \<or> h r = p2"
      using Cons.prems(3) .
    have Ib': "length (filter ?G ?props) \<le> 1"
      using Cons.prems(4) .
    have keep: "\<And>q. ?G q \<Longrightarrow> h q = p1 \<or> h q = p2 \<Longrightarrow> ?h1 q = p1 \<or> ?h1 q = p2"
      using merged_cases [OF p2 s1 Mm Ia'] by metis
    have bound: "\<And>q. h q = p2 \<Longrightarrow> ?h1 q = p2"
      by (rule merged_keeps_bound [OF p2 s1 g1 Mm Ia'])
    have found_iff: "?G m \<Longrightarrow> ?found \<longleftrightarrow> (\<exists>q\<in>set ?props. ?G q)"
      by (auto simp: has_getter_def)
    have props1: "i_properties ?self1 = (if ?found then ?props else ?props @ [m])"
      by simp
    have M1: "\<forall>r\<in>set (member_properties ms). has_getter g ?h1 r \<longrightarrow> ?h1 r = p1 \<or> ?h1 r = p2"
      unfolding G1 using Mrest keep by blast
    have Ia1: "\<forall>r\<in>set (i_properties ?self1). has_getter g ?h1 r \<longrightarrow> ?h1 r = p1 \<or> ?h1 r = p2"
      unfolding G1 props1 using Ia' Mm keep by (auto split: if_splits)
    have none: "?G m \<Longrightarrow> \<not> ?found \<Longrightarrow> filter ?G ?props = []"
      using found_iff by (auto simp: filter_empty_conv)
    have Ib1: "length (filter (has_getter g ?h1) (i_properties ?self1)) \<le> 1"
    proof (cases ?found)
      case True
      then show ?thesis unfolding G1 props1 using Ib' by simp
    next
      case False
      show ?thesis
      proof (cases "?G m")
        case True
        with none False show ?thesis unfolding G1 props1 by simp
      next
        case nG: False
        with False show ?thesis unfolding G1 props1 using Ib' by simp
      qed
    qed
    have B1: "(\<exists>r\<in>set (member_properties ms). ?h1 r = p2) \<or>
       (\<exists>r. filter (has_getter g ?h1) (i_properties ?self1) = [r] \<and> ?h1 r = p2)"
    proof -
      from Cons.prems(5) consider
          (rest) r where "r \<in> set (member_properties ms)" "h r = p2"
        | (here) "h m = p2"
        | (coll) r where "filter ?G ?props = [r]" "h r = p2"
        by (auto simp: x PropertyObj)
      then show ?thesis
      proof cases
        case rest
        then show ?thesis using bound by blast
      next
        case here
        then have Gm: "?G m" by (simp add: has_getter_def p2 g1)
        show ?thesis
        proof (cases ?found)
          case True
          with found_iff [OF Gm] obtain q where q: "q \<in> set ?props" "?G q" by blast
          from filter_at_most_one [OF Ib' q] have "filter ?G ?props = [q]" .
          moreover have "?h1 q = p2"
            by (rule merged_binds [OF p2 Ia' here g1 q])
          ultimately show ?thesis unfolding G1 props1 using True by simp
        next
          case False
          from none [OF Gm False] have "filter ?G (?props @ [m]) = [m]" using Gm by simp
          moreover have "?h1 m = p2" using bound here by blast
          ultimately show ?thesis unfolding G1 props1 using False by simp
        qed
      next
        case coll
        from coll(1) have "r \<in> set (filter ?G ?props)" by simp
        then have rin: "r \<in> set ?props" "?G r" by simp_all
        have h1r: "?h1 r = p2" using bound coll(2) by blast
        show ?thesis
        proof (cases ?found)
          case True
          then show ?thesis unfolding G1 props1 using coll(1) h1r by simp
        next
          case False
          have "\<not> ?G m"
          proof
            assume "?G m"
            with found_iff rin False show False by blast
          qed
          then have "filter ?G (?props @ [m]) = [r]" using coll(1) by simp
          then show ?thesis unfolding G1 props1 using False h1r by simp
        qed
      qed
    qed
    show ?thesis
      by (rule Cons.IH [OF r M1 Ia1 Ib1 B1])
  qed
qed

lemma dbus_property_Inr:
  assumes "dbus_property parse access name disabled g = Inr p1"
  shows "prop_getter p1 = g" and "prop_setter p1 = None"
    and "p_name p1 = Some (case name of None \<Rightarrow> fn_name g | Some n \<Rightarrow> n)"
    and "p_access p1 = Some access" and "p_disabled p1 = Some disabled"
    and "p_options p1 =
           Some \<lparr> o_name = Some name, o_access = Some access, o_disabled = Some disabled \<rparr>"
  using assms
  by (auto simp: dbus_property_def Property_init_def set_options_def options_update_def
      no_options_def Let_def split: if_splits option.splits sum.splits list.splits)

lemma setter_Inr:
  assumes "dbus_property parse access name disabled g = Inr p1"
    and "setter parse p1 s = Inr p2"
  shows "p2 = p1\<lparr> prop_setter := Some s \<rparr>"
  using assms
  by (auto simp: dbus_property_def setter_def Property_init_def set_options_def
      options_update_def no_options_def Let_def
      split: if_splits option.splits sum.splits list.splits)

text \<open>
  C4. Let \<open>p1\<close> be the object \<^verbatim>\<open>@dbus_property(access, name, disabled)\<close> returns for the
  getter \<open>g\<close> and \<open>p2\<close> the object its \<^verbatim>\<open>setter\<close> returns for \<open>s\<close>. If the class binds
  \<open>p2\<close> (and possibly \<open>p1\<close>, under another name) and no other property object with the
  getter \<open>g\<close>, then the constructed interface collects exactly one property with that
  getter; it has the getter \<open>g\<close>, the setter \<open>s\<close>, and the name, access mode and
  disabled flag that were configured with the getter.
\<close>

theorem getter_then_setter_one_property:
  assumes decl: "dbus_property parse access name disabled g = Inr p1"
    and bind: "setter parse p1 s = Inr p2"
    and only: "\<forall>r\<in>set (member_properties members). has_getter g h r \<longrightarrow> h r = p1 \<or> h r = p2"
    and bound: "\<exists>r\<in>set (member_properties members). h r = p2"
    and init: "ServiceInterface_init h iname members = Inr (h', self)"
  shows "\<exists>r. filter (has_getter g h') (i_properties self) = [r] \<and> h' r = p2 \<and>
             prop_getter p2 = g \<and> prop_setter p2 = Some s \<and>
             p_name p2 = Some (case name of None \<Rightarrow> fn_name g | Some n \<Rightarrow> n) \<and>
             p_access p2 = Some access \<and> p_disabled p2 = Some disabled \<and>
             p_name p2 = p_name p1 \<and> p_access p2 = p_access p1 \<and>
             p_disabled p2 = p_disabled p1 \<and> p_options p2 = p_options p1"
proof -
  have p2: "p2 = p1\<lparr> prop_setter := Some s \<rparr>" by (rule setter_Inr [OF decl bind])
  note p1 = dbus_property_Inr [OF decl]
  from init have run: "collect_members h members (fresh_interface iname) = (h', self)"
    by (auto simp: ServiceInterface_init_def split: prod.splits option.splits)
  have Ia: "\<forall>r\<in>set (i_properties (fresh_interface iname :: 'a ServiceInterface)).
      has_getter g h r \<longrightarrow> h r = p1 \<or> h r = p2"
    by (simp add: fresh_interface_def)
  have Ib: "length (filter (has_getter g h)
      (i_properties (fresh_interface iname :: 'a ServiceInterface))) \<le> 1"
    by (simp add: fresh_interface_def)
  from bound have B: "(\<exists>r\<in>set (member_properties members). h r = p2) \<or>
      (\<exists>r. filter (has_getter g h)
             (i_properties (fresh_interface iname :: 'a ServiceInterface)) = [r] \<and> h r = p2)"
    by simp
  from collect_merges_getter [OF p2 p1(2) p1(1) run only Ia Ib B]
  obtain r where "filter (has_getter g h') (i_properties self) = [r]" "h' r = p2"
    by blast
  then show ?thesis using p1 by (auto simp: p2)
qed

theorem getter_then_setter_one_property_witness:
  "dbus_property one_letter_types READWRITE None False string_prop_fn =
     Inr string_prop_getter_only \<and>
   setter one_letter_types string_prop_getter_only string_prop_set_fn = Inr string_prop_bound \<and>
   member_properties example_members = [22, 20, 21] \<and>
   \<not> has_getter string_prop_fn example_store 22 \<and>
   example_store 20 = string_prop_getter_only \<and>
   example_store 21 = string_prop_bound \<and>
   ServiceInterface_init example_store ''org.example.Interface'' example_members =
     Inr (registered_store, registered_interface) \<and>
   filter (has_getter string_prop_fn registered_store) (i_properties registered_interface) =
     [20] \<and>
   registered_store 20 = string_prop_bound \<and>
   prop_getter string_prop_bound = string_prop_fn \<and>
   prop_setter string_prop_bound = Some string_prop_set_fn \<and>
   p_name string_prop_bound = Some ''string_prop'' \<and>
   p_access string_prop_bound = Some READWRITE \<and>
   p_disabled string_prop_bound = Some False"
proof -
  have a: "dbus_property one_letter_types READWRITE None False string_prop_fn =
      Inr string_prop_getter_only"
    and b: "setter one_letter_types string_prop_getter_only string_prop_set_fn =
      Inr string_prop_bound"
    by (rule example_properties)+
  have ms: "member_properties example_members = [22, 20, 21]"
    by (simp add: example_members_def)
  have c: "\<forall>r\<in>set (member_properties example_members).
      has_getter string_prop_fn example_store r \<longrightarrow>
      example_store r = string_prop_getter_only \<or> example_store r = string_prop_bound"
    by (simp add: ms example_store_at has_getter_def example_getters string_prop_fn_def)
  have d: "\<exists>r\<in>set (member_properties example_members). example_store r = string_prop_bound"
    by (simp add: ms example_store_at)
  note e = example_registration
  have f: "filter (has_getter string_prop_fn registered_store)
      (i_properties registered_interface) = [20]"
    by (simp add: registered_interface_def has_getter_def example_store_at example_getters
        string_prop_fn_def)
  from getter_then_setter_one_property [OF a b c d e] f
  have "registered_store 20 = string_prop_bound \<and>
    prop_getter string_prop_bound = string_prop_fn \<and>
    prop_setter string_prop_bound = Some string_prop_set_fn \<and>
    p_name string_prop_bound = Some (fn_name string_prop_fn) \<and>
    p_access string_prop_bound = Some READWRITE \<and>
    p_disabled string_prop_bound = Some False"
    by auto
  moreover have "\<not> has_getter string_prop_fn example_store 22"
    by (simp add: example_store_at has_getter_def example_getters string_prop_fn_def)
  ultimately show ?thesis using a b ms e f by (simp add: string_prop_fn_def example_store_at)
qed

subsection \<open>Property-change notification\<close>

lemma changed_variants_map:
  assumes "list_all (\<lambda>p. configured (h p)) props" and "distinct (map fst acc)"
  shows "\<exists>vd. changed_variants h props changed acc = Inr vd \<and> distinct (map fst vd) \<and>
           (\<forall>n. map_of vd n =
              (case changed n of
                 None \<Rightarrow> map_of acc n
               | Some v \<Rightarrow>
                   if properties_named h props n = [] then map_of acc n
                   else Some (PVariant (p_signature (h (last (properties_named h props n)))) v)))"
  using assms
proof (induction props arbitrary: acc)
  case Nil
  then show ?case by (simp add: properties_named_def split: option.split)
next
  case (Cons p props)
  from Cons.prems obtain nm where nm: "p_name (h p) = Some nm"
    by (auto simp: configured_def)
  from Cons.prems have rest: "list_all (\<lambda>p. configured (h p)) props" by simp
  show ?case
  proof (cases "changed nm")
    case None
    from Cons.IH [OF rest Cons.prems(2)] obtain vd where
      vd: "changed_variants h props changed acc = Inr vd" "distinct (map fst vd)"
        "\<forall>n. map_of vd n =
              (case changed n of
                 None \<Rightarrow> map_of acc n
               | Some v \<Rightarrow>
                   if properties_named h props n = [] then map_of acc n
                   else Some (PVariant (p_signature (h (last (properties_named h props n)))) v))"
      by blast
    show ?thesis
      using nm None vd by (auto simp: properties_named_def split: option.split)
  next
    case (Some v)
    let ?acc = "AList.update nm (PVariant (p_signature (h p)) v) acc"
    have d: "distinct (map fst ?acc)" using Cons.prems(2) by (simp add: distinct_update)
    from Cons.IH [OF rest d] obtain vd where
      vd: "changed_variants h props changed ?acc = Inr vd" "distinct (map fst vd)"
        "\<forall>n. map_of vd n =
              (case changed n of
                 None \<Rightarrow> map_of ?acc n
               | Some v \<Rightarrow>
                   if properties_named h props n = [] then map_of ?acc n
                   else Some (PVariant (p_signature (h (last (properties_named h props n)))) v))"
      by blast
    show ?thesis
      using nm Some vd by (auto simp: properties_named_def update_conv' split: option.split)
  qed
qed

text \<open>
  C5. For an interface whose collected properties are configured,
  \<^verbatim>\<open>emit_properties_changed(changed, invalidated)\<close> notifies every attached bus exactly
  once, on \<^verbatim>\<open>org.freedesktop.DBus.Properties\<close>, member \<^verbatim>\<open>PropertiesChanged\<close>, signature
  \<^verbatim>\<open>sa{sv}as\<close>. The body is the interface name, a dictionary and \<open>invalidated\<close> as given.
  The dictionary has a key for exactly the names in \<open>changed\<close> that are names of collected
  properties; its value is the variant of the property's signature and the supplied
  value (when several properties share the name, the last one's signature). Names in
  \<open>changed\<close> that no property has are dropped.
\<close>

theorem properties_changed_notification:
  assumes "enumerates ord" and "list_all (\<lambda>p. configured (h p)) (i_properties self)"
  shows "\<exists>vd. emit_properties_changed ord h self changed invalidated =
           Inr (map (\<lambda>bus. Notify bus ''org.freedesktop.DBus.Properties''
                               ''PropertiesChanged'' ''sa{sv}as''
                               [PStr (i_name self), dict_value vd, invalidated])
                    (ord (i_buses self))) \<and>
           distinct (ord (i_buses self)) \<and> fset_of_list (ord (i_buses self)) = i_buses self \<and>
           distinct (map fst vd) \<and>
           (\<forall>n. map_of vd n =
              (case changed n of
                 None \<Rightarrow> None
               | Some v \<Rightarrow>
                   if properties_named h (i_properties self) n = [] then None
                   else Some (PVariant
                     (p_signature (h (last (properties_named h (i_properties self) n)))) v)))"
proof -
  from changed_variants_map [OF assms(2), of "[]" changed]
  obtain vd where vd: "changed_variants h (i_properties self) changed [] = Inr vd"
    "distinct (map fst vd)"
    "\<forall>n. map_of vd n =
       (case changed n of
          None \<Rightarrow> map_of [] n
        | Some v \<Rightarrow>
            if properties_named h (i_properties self) n = [] then map_of [] n
            else Some (PVariant
              (p_signature (h (last (properties_named h (i_properties self) n)))) v))"
    by auto
  have "emit_properties_changed ord h self changed invalidated =
      Inr (map (\<lambda>bus. Notify bus ''org.freedesktop.DBus.Properties''
                          ''PropertiesChanged'' ''sa{sv}as''
                          [PStr (i_name self), dict_value vd, invalidated])
               (ord (i_buses self)))"
    using vd(1) by (simp add: emit_properties_changed_def get_buses_def)
  moreover have "distinct (ord (i_buses self))" "fset_of_list (ord (i_buses self)) = i_buses self"
    using assms(1) by (simp_all add: enumerates_def)
  moreover have "\<forall>n. map_of vd n =
      (case changed n of
         None \<Rightarrow> None
       | Some v \<Rightarrow>
           if properties_named h (i_properties self) n = [] then None
           else Some (PVariant
             (p_signature (h (last (properties_named h (i_properties self) n)))) v))"
    using vd(3) by (simp split: option.split)
  ultimately show ?thesis using vd(2) by blast
qed

theorem properties_changed_notification_witness:
  "enumerates (sorted_list_of_fset :: nat fset \<Rightarrow> nat list) \<and>
   list_all (\<lambda>p. configured (registered_store p))
     (i_properties (add_bus (add_bus registered_interface 10) 20)) \<and>
   emit_properties_changed sorted_list_of_fset registered_store
       (add_bus (add_bus registered_interface 10) 20)
       [''string_prop'' \<mapsto> PStr ''new'', ''unknown'' \<mapsto> PInt 1] (PList [PStr ''gone'']) =
     Inr [Notify 10 ''org.freedesktop.DBus.Properties'' ''PropertiesChanged'' ''sa{sv}as''
            [PStr ''org.example.Interface'',
             PDict [(PStr ''string_prop'', PVariant ''s'' (PStr ''new''))],
             PList [PStr ''gone'']],
          Notify 20 ''org.freedesktop.DBus.Properties'' ''PropertiesChanged'' ''sa{sv}as''
            [PStr ''org.example.Interface'',
             PDict [(PStr ''string_prop'', PVariant ''s'' (PStr ''new''))],
             PList [PStr ''gone'']]] \<and>
   (\<exists>vd. emit_properties_changed sorted_list_of_fset registered_store
            (add_bus (add_bus registered_interface 10) 20)
            [''string_prop'' \<mapsto> PStr ''new'', ''unknown'' \<mapsto> PInt 1]
            (PList [PStr ''gone'']) =
          Inr (map (\<lambda>bus. Notify bus ''org.freedesktop.DBus.Properties''
                              ''PropertiesChanged'' ''sa{sv}as''
                              [PStr ''org.example.Interface'', dict_value vd,
                               PList [PStr ''gone'']])
                   (sorted_list_of_fset {|10, 20|})) \<and>
          map_of vd ''string_prop'' = Some (PVariant ''s'' (PStr ''new'')) \<and>
          map_of vd ''unknown'' = None)"
proof -
  let ?self = "add_bus (add_bus registered_interface 10) 20"
  let ?changed = "[''string_prop'' \<mapsto> PStr ''new'', ''unknown'' \<mapsto> PInt 1]"
  have a: "enumerates (sorted_list_of_fset :: nat fset \<Rightarrow> nat list)"
    by (rule enumerates_sorted)
  have b: "list_all (\<lambda>p. configured (registered_store p)) (i_properties ?self)"
    by (simp add: registered_buses example_store_at example_configured)
  have c: "emit_properties_changed sorted_list_of_fset registered_store ?self ?changed
      (PList [PStr ''gone'']) =
     Inr [Notify 10 ''org.freedesktop.DBus.Properties'' ''PropertiesChanged'' ''sa{sv}as''
            [PStr ''org.example.Interface'',
             PDict [(PStr ''string_prop'', PVariant ''s'' (PStr ''new''))],
             PList [PStr ''gone'']],
          Notify 20 ''org.freedesktop.DBus.Properties'' ''PropertiesChanged'' ''sa{sv}as''
            [PStr ''org.example.Interface'',
             PDict [(PStr ''string_prop'', PVariant ''s'' (PStr ''new''))],
             PList [PStr ''gone'']]]"
    by (simp add: emit_properties_changed_def get_buses_def registered_buses example_store_at
        example_getters example_signatures dict_value_def sorted_two)
  have n1: "properties_named registered_store [22, 20] ''string_prop'' = [20]"
    and n2: "properties_named registered_store [22, 20] ''unknown'' = []"
    by (simp_all add: properties_named_def example_store_at example_getters)
  from properties_changed_notification [OF a b, of ?changed "PList [PStr ''gone'']"]
  obtain vd where vd: "emit_properties_changed sorted_list_of_fset registered_store ?self
        ?changed (PList [PStr ''gone'']) =
      Inr (map (\<lambda>bus. Notify bus ''org.freedesktop.DBus.Properties''
                          ''PropertiesChanged'' ''sa{sv}as''
                          [PStr (i_name ?self), dict_value vd, PList [PStr ''gone'']])
               (sorted_list_of_fset (i_buses ?self)))"
    and m: "\<forall>n. map_of vd n =
      (case ?changed n of
         None \<Rightarrow> None
       | Some v \<Rightarrow>
           if properties_named registered_store (i_properties ?self) n = [] then None
           else Some (PVariant (p_signature (registered_store
                  (last (properties_named registered_store (i_properties ?self) n)))) v))"
    by blast
  from m have m1: "map_of vd ''string_prop'' = Some (PVariant ''s'' (PStr ''new''))"
    by (simp add: registered_buses n1 example_store_at example_signatures)
  from m have m2: "map_of vd ''unknown'' = None"
    by (simp add: registered_buses n2)
  have e: "\<exists>vd. emit_properties_changed sorted_list_of_fset registered_store ?self ?changed
            (PList [PStr ''gone'']) =
          Inr (map (\<lambda>bus. Notify bus ''org.freedesktop.DBus.Properties''
                              ''PropertiesChanged'' ''sa{sv}as''
                              [PStr ''org.example.Interface'', dict_value vd,
                               PList [PStr ''gone'']])
                   (sorted_list_of_fset {|10, 20|})) \<and>
          map_of vd ''string_prop'' = Some (PVariant ''s'' (PStr ''new'')) \<and>
          map_of vd ''unknown'' = None"
    using vd m1 m2 unfolding registered_buses by blast
  show ?thesis by (rule conjI [OF a conjI [OF b conjI [OF c e]]])
qed

subsection \<open>Disabled properties\<close>

lemma visible_properties_configured:
  assumes "list_all (\<lambda>p. configured (h p)) props"
  shows "\<exists>view. visible_properties h props = Inr view \<and>
           map Some view =
             map (\<lambda>q. p_introspection (h q)) (filter (\<lambda>q. p_disabled (h q) = Some False) props)"
  using assms
proof (induction props)
  case Nil
  then show ?case by simp
next
  case (Cons p props)
  then obtain view where v: "visible_properties h props = Inr view"
    "map Some view =
       map (\<lambda>q. p_introspection (h q)) (filter (\<lambda>q. p_disabled (h q) = Some False) props)"
    by auto
  from Cons.prems obtain d i where "p_disabled (h p) = Some d" "p_introspection (h p) = Some i"
    by (auto simp: configured_def)
  with v show ?case by (cases d) auto
qed

lemma filter_removeAll_other: "\<not> P p \<Longrightarrow> filter P (removeAll p xs) = filter P xs"
  by (induction xs) auto

text \<open>
  C10. \<^verbatim>\<open>emit_properties_changed\<close> does not look at the \<^verbatim>\<open>disabled\<close> flag: when a
  collected property \<open>p\<close> is disabled and its name is a key of \<open>changed\<close>, the dictionary
  sent to every attached bus still has a variant under that name (with the signature of
  the last property of that name, which is \<open>p\<close> when the name is not shared), while the
  property list of \<^verbatim>\<open>introspect\<close> is the list of introspection records of the enabled
  properties other than \<open>p\<close>.
\<close>

theorem disabled_property_still_emitted:
  assumes conf: "list_all (\<lambda>p. configured (h p)) (i_properties self)"
    and p: "p \<in> set (i_properties self)" and dis: "p_disabled (h p) = Some True"
    and nm: "p_name (h p) = Some n" and ch: "changed n = Some v"
  shows "\<exists>vd view.
           emit_properties_changed ord h self changed invalidated =
             Inr (map (\<lambda>bus. Notify bus ''org.freedesktop.DBus.Properties''
                                 ''PropertiesChanged'' ''sa{sv}as''
                                 [PStr (i_name self), dict_value vd, invalidated])
                      (ord (i_buses self))) \<and>
           map_of vd n =
             Some (PVariant
               (p_signature (h (last (properties_named h (i_properties self) n)))) v) \<and>
           introspect h self = Inr view \<and>
           map Some (intr_properties view) =
             map (\<lambda>q. p_introspection (h q))
               (filter (\<lambda>q. p_disabled (h q) = Some False) (removeAll p (i_properties self)))"
proof -
  from changed_variants_map [OF conf, of "[]" changed]
  obtain vd where vd: "changed_variants h (i_properties self) changed [] = Inr vd"
    and m: "\<forall>k. map_of vd k =
       (case changed k of
          None \<Rightarrow> map_of [] k
        | Some v \<Rightarrow>
            if properties_named h (i_properties self) k = [] then map_of [] k
            else Some (PVariant
              (p_signature (h (last (properties_named h (i_properties self) k)))) v))"
    by auto
  have "p \<in> set (properties_named h (i_properties self) n)"
    using p nm by (simp add: properties_named_def)
  then have "properties_named h (i_properties self) n \<noteq> []" by auto
  with m ch have 1: "map_of vd n =
      Some (PVariant (p_signature (h (last (properties_named h (i_properties self) n)))) v)"
    by simp
  have 2: "emit_properties_changed ord h self changed invalidated =
      Inr (map (\<lambda>bus. Notify bus ''org.freedesktop.DBus.Properties''
                          ''PropertiesChanged'' ''sa{sv}as''
                          [PStr (i_name self), dict_value vd, invalidated])
               (ord (i_buses self)))"
    using vd by (simp add: emit_properties_changed_def get_buses_def)
  from visible_properties_configured [OF conf]
  obtain props where v: "visible_properties h (i_properties self) = Inr props"
    and vm: "map Some props =
       map (\<lambda>q. p_introspection (h q))
         (filter (\<lambda>q. p_disabled (h q) = Some False) (i_properties self))"
    by blast
  have "filter (\<lambda>q. p_disabled (h q) = Some False) (removeAll p (i_properties self)) =
      filter (\<lambda>q. p_disabled (h q) = Some False) (i_properties self)"
    using dis by (simp add: filter_removeAll_other)
  with vm have 3: "map Some props =
       map (\<lambda>q. p_introspection (h q))
         (filter (\<lambda>q. p_disabled (h q) = Some False) (removeAll p (i_properties self)))"
    by simp
  obtain view where view: "introspect h self = Inr view" "intr_properties view = props"
    using v by (simp add: introspect_def)
  with 1 2 3 show ?thesis by blast
qed

theorem disabled_property_still_emitted_witness:
  "list_all (\<lambda>p. configured (registered_store p))
     (i_properties (add_bus (add_bus registered_interface 10) 20)) \<and>
   22 \<in> set (i_properties (add_bus (add_bus registered_interface 10) 20)) \<and>
   p_disabled (registered_store 22) = Some True \<and>
   p_name (registered_store 22) = Some ''hidden'' \<and>
   [''hidden'' \<mapsto> PInt 6] ''hidden'' = Some (PInt 6) \<and>
   emit_properties_changed sorted_list_of_fset registered_store
       (add_bus (add_bus registered_interface 10) 20) [''hidden'' \<mapsto> PInt 6] (PList []) =
     Inr [Notify 10 ''org.freedesktop.DBus.Properties'' ''PropertiesChanged'' ''sa{sv}as''
            [PStr ''org.example.Interface'',
             PDict [(PStr ''hidden'', PVariant ''u'' (PInt 6))], PList []],
          Notify 20 ''org.freedesktop.DBus.Properties'' ''PropertiesChanged'' ''sa{sv}as''
            [PStr ''org.example.Interface'',
             PDict [(PStr ''hidden'', PVariant ''u'' (PInt 6))], PList []]] \<and>
   introspect registered_store (add_bus (add_bus registered_interface 10) 20) =
     Inr \<lparr> intr_name = ''org.example.Interface'', intr_methods = [],
           intr_signals = [ISignal ''string_signal'' [Arg ''s'' OUT None]],
           intr_properties = [IProperty ''string_prop'' ''s'' READWRITE] \<rparr> \<and>
   (\<exists>vd view.
      emit_properties_changed sorted_list_of_fset registered_store
          (add_bus (add_bus registered_interface 10) 20) [''hidden'' \<mapsto> PInt 6] (PList []) =
        Inr (map (\<lambda>bus. Notify bus ''org.freedesktop.DBus.Properties''
                            ''PropertiesChanged'' ''sa{sv}as''
                            [PStr ''org.example.Interface'', dict_value vd, PList []])
                 (sorted_list_of_fset {|10, 20|})) \<and>
      map_of vd ''hidden'' = Some (PVariant ''u'' (PInt 6)) \<and>
      introspect registered_store (add_bus (add_bus registered_interface 10) 20) = Inr view \<and>
      map Some (intr_properties view) =
        [Some (IProperty ''string_prop'' ''s'' READWRITE)])"
proof -
  let ?self = "add_bus (add_bus registered_interface 10) 20"
  let ?changed = "[''hidden'' \<mapsto> PInt 6]"
  have a: "list_all (\<lambda>p. configured (registered_store p)) (i_properties ?self)"
    by (simp add: registered_buses example_store_at example_configured)
  have b: "22 \<in> set (i_properties ?self)" by (simp add: registered_buses)
  have c: "p_disabled (registered_store 22) = Some True"
    by (simp add: example_store_at example_signatures)
  have d: "p_name (registered_store 22) = Some ''hidden''"
    by (simp add: example_store_at example_getters)
  have e: "?changed ''hidden'' = Some (PInt 6)" by simp
  have f: "emit_properties_changed sorted_list_of_fset registered_store ?self ?changed
      (PList []) =
     Inr [Notify 10 ''org.freedesktop.DBus.Properties'' ''PropertiesChanged'' ''sa{sv}as''
            [PStr ''org.example.Interface'',
             PDict [(PStr ''hidden'', PVariant ''u'' (PInt 6))], PList []],
          Notify 20 ''org.freedesktop.DBus.Properties'' ''PropertiesChanged'' ''sa{sv}as''
            [PStr ''org.example.Interface'',
             PDict [(PStr ''hidden'', PVariant ''u'' (PInt 6))], PList []]]"
    by (simp add: emit_properties_changed_def get_buses_def registered_buses example_store_at
        example_getters example_signatures dict_value_def sorted_two)
  have g: "introspect registered_store ?self =
     Inr \<lparr> intr_name = ''org.example.Interface'', intr_methods = [],
           intr_signals = [ISignal ''string_signal'' [Arg ''s'' OUT None]],
           intr_properties = [IProperty ''string_prop'' ''s'' READWRITE] \<rparr>"
    by (simp add: introspect_def registered_buses example_store_at example_signatures)
      (simp add: add_bus_def registered_interface_def descriptors)
  have n: "properties_named registered_store [22, 20] ''hidden'' = [22]"
    by (simp add: properties_named_def example_store_at example_getters)
  from disabled_property_still_emitted [where h = registered_store and self = ?self
      and p = 22 and n = "''hidden''" and changed = ?changed and v = "PInt 6"
      and ord = sorted_list_of_fset and invalidated = "PList []", OF a b c d e]
  obtain vd view where
    1: "emit_properties_changed sorted_list_of_fset registered_store ?self ?changed (PList []) =
        Inr (map (\<lambda>bus. Notify bus ''org.freedesktop.DBus.Properties''
                            ''PropertiesChanged'' ''sa{sv}as''
                            [PStr (i_name ?self), dict_value vd, PList []])
                 (sorted_list_of_fset (i_buses ?self)))"
    and 2: "map_of vd ''hidden'' =
        Some (PVariant (p_signature (registered_store
          (last (properties_named registered_store (i_properties ?self) ''hidden'')))) (PInt 6))"
    and 3: "introspect registered_store ?self = Inr view"
    and 4: "map Some (intr_properties view) =
        map (\<lambda>q. p_introspection (registered_store q))
          (filter (\<lambda>q. p_disabled (registered_store q) = Some False)
             (removeAll 22 (i_properties ?self)))"
    by blast
  from 2 have r2: "map_of vd ''hidden'' = Some (PVariant ''u'' (PInt 6))"
    by (simp add: registered_buses n example_store_at example_signatures)
  from 4 have r4: "map Some (intr_properties view) =
      [Some (IProperty ''string_prop'' ''s'' READWRITE)]"
    by (simp add: registered_buses example_store_at example_signatures)
  have h: "\<exists>vd view.
      emit_properties_changed sorted_list_of_fset registered_store ?self ?changed (PList []) =
        Inr (map (\<lambda>bus. Notify bus ''org.freedesktop.DBus.Properties''
                            ''PropertiesChanged'' ''sa{sv}as''
                            [PStr ''org.example.Interface'', dict_value vd, PList []])
                 (sorted_list_of_fset {|10, 20|})) \<and>
      map_of vd ''hidden'' = Some (PVariant ''u'' (PInt 6)) \<and>
      introspect registered_store ?self = Inr view \<and>
      map Some (intr_properties view) =
        [Some (IProperty ''string_prop'' ''s'' READWRITE)]"
    using 1 r2 3 r4 unfolding registered_buses
    by (intro exI [of _ vd] exI [of _ view] conjI)
  show ?thesis
    by (rule conjI [OF a conjI [OF b conjI [OF c conjI [OF d conjI [OF e conjI [OF f
        conjI [OF g h]]]]]]])
qed

end
